theory Spec2Isabelle
  imports Main
begin

section \<open>Values, rows and the observable trace\<close>

text \<open>
  The worker of \<^verbatim>\<open>src/worker.js\<close> talks to four collaborators: the settings and
  message tables, the browser page, the Telegram client and the console. The tables are
  part of the modelled state. The browser, Telegram and the clock are oracles: functions
  of the trace of everything that happened so far, so that any deterministic environment
  (one that fails at the third send, say) is an instance. Every call to a collaborator is
  appended to the trace, which is what the theorems below speak about.

  A JavaScript exception is a value of \<open>js_error\<close>. \<open>TypeError\<close> is what reading a
  property of \<open>null\<close> throws; \<open>ExternalError\<close> is an error thrown by a collaborator and
  carries the text that \<^verbatim>\<open>JSON.stringify\<close> gives for it. A computation that may throw
  returns \<open>(js_error + 'a) \<times> world\<close>: the writes made before the throw stay.
  The tables themselves are taken to be reliable (their calls do not throw). A response
  of Telegram is likewise carried as the text that \<^verbatim>\<open>JSON.stringify\<close> gives for it.

  The model module \<^verbatim>\<open>./models\<close> is not among the sources. The rows are records
  with the columns the worker reads and writes; \<open>data\<close> and \<open>channels\<close> of a message
  hold strings, \<open>timeframe\<close> may be \<open>null\<close>, and \<open>status\<close> is one of the three
  values the worker compares and writes.

  Of the events, \<open>Heartbeat\<close> is a call of \<^verbatim>\<open>updateWorkerStatus()\<close> with the time it
  wrote, \<open>ScreenshotCall\<close> is a call of \<^verbatim>\<open>screenshot(page, {symbol, timeframe})\<close>,
  \<open>Page\<close> and \<open>PageEvaluate\<close> are calls to the page with the error they threw, if
  any, and \<open>Telegram\<close> is a send with the token of the client, and its result.
\<close>

datatype js_error = TypeError string | ExternalError string

text \<open>What reading \<open>property\<close> of \<open>null\<close> throws.\<close>

definition null_read :: "string \<Rightarrow> js_error" where
  "null_read property = TypeError (''Cannot read properties of null (reading '' @ property @ '')'')"

definition JSON_stringify :: "js_error \<Rightarrow> string" where
  "JSON_stringify err = (case err of TypeError _ \<Rightarrow> ''{}'' | ExternalError j \<Rightarrow> j)"

datatype status = Pending | Success | Failed

record setting =
  type_s :: string
  data_s :: string
  enabled_s :: bool

record message =
  id_m :: nat
  data_m :: string
  timeframe_m :: "string option"
  channels_m :: string
  status_m :: status
  log_m :: "string option"

datatype log_line =
    WorkerStarted
  | BrowserSessionOpened
  | PendingMessages nat
  | ProcessingMessageID nat
  | ScreenshotSUCCESS string
  | ScreenshotFAILED string
  | DispatchSUCCESS string
  | DispatchFAILED js_error
  | LoginSUCCESS string
  | LoginINVALID string
  | LoginFAILED js_error
  | CheckingQueue
  | ProcessQueueFAILED js_error
  | RecheckQueueIn nat

datatype page_call =
    Goto string
  | WaitForSelector string
  | Click string
  | TypeText string "string option"
  | WaitForNavigationOrError

datatype page_script =
    ChartHref
  | ClickTimeframe string
  | ScreenshotValue
  | LoginErrorPresent

datatype tg_call =
    SendPhoto string "string option" string
  | SendMessage string string

datatype event =
    Heartbeat string
  | HeartbeatInit string
  | SettingFindOne string
  | MessageFindAllPending
  | MessageUpdate nat "status option" string
  | ConsoleLog log_line
  | ScreenshotCall string string
  | Page page_call "js_error option"
  | PageEvaluate page_script "js_error option"
  | Telegram string tg_call "js_error + string"
  | Sleep nat

record world =
  settings :: "setting list"
  messages :: "message list"
  trace :: "event list"

record env =
  env_now :: "event list \<Rightarrow> string"
  env_page :: "event list \<Rightarrow> page_call \<Rightarrow> js_error option"
  env_page_string :: "event list \<Rightarrow> page_script \<Rightarrow> js_error + string"
  env_page_bool :: "event list \<Rightarrow> page_script \<Rightarrow> js_error + bool"
  env_telegram :: "event list \<Rightarrow> string \<Rightarrow> tg_call \<Rightarrow> js_error + string"
  env_default_enabled :: bool

type_synonym 'a prog = "world \<Rightarrow> (js_error + 'a) \<times> world"

definition emit :: "event \<Rightarrow> world \<Rightarrow> world" where
  "emit e w = w\<lparr>trace := trace w @ [e]\<rparr>"

definition return_p :: "'a \<Rightarrow> 'a prog" where
  "return_p x w = (Inr x, w)"

definition bind_p :: "'a prog \<Rightarrow> ('a \<Rightarrow> 'b prog) \<Rightarrow> 'b prog" where
  "bind_p m f w = (case m w of (Inl err, w') \<Rightarrow> (Inl err, w') | (Inr x, w') \<Rightarrow> f x w')"

section \<open>JavaScript string operations\<close>

text \<open>
  \<^verbatim>\<open>s.split(c)\<close> for a one-character separator: the fields between the
  separators, never an empty array (\<^verbatim>\<open>"".split(",")\<close> is \<^verbatim>\<open>[""]\<close>).
  The separators used by the worker are ASCII, so splitting bytes and splitting
  UTF-16 units give the same fields.
\<close>

fun js_split :: "char \<Rightarrow> string \<Rightarrow> string list" where
  "js_split c [] = [[]]"
| "js_split c (x # xs) =
     (if x = c then [] # js_split c xs
      else (case js_split c xs of [] \<Rightarrow> [[x]] | f # fs \<Rightarrow> (x # f) # fs))"

text \<open>\<^verbatim>\<open>a || b\<close> on an optional string: \<open>null\<close> and the empty string are falsy.\<close>

definition js_or :: "string option \<Rightarrow> string \<Rightarrow> string" where
  "js_or a b = (case a of None \<Rightarrow> b | Some s \<Rightarrow> if s = [] then b else s)"

section \<open>The tables\<close>

definition Setting_findOne :: "string \<Rightarrow> world \<Rightarrow> setting option \<times> world" where
  "Setting_findOne ty w = (find (\<lambda>s. type_s s = ty) (settings w), emit (SettingFindOne ty) w)"

definition Message_findAll_pending :: "world \<Rightarrow> message list \<times> world" where
  "Message_findAll_pending w =
     (filter (\<lambda>m. status_m m = Pending) (messages w), emit MessageFindAllPending w)"

text \<open>
  \<^verbatim>\<open>Message.update(fields, { where: { id } })\<close>: the worker writes either the log
  alone or the status and the log.
\<close>

definition update_row :: "status option \<Rightarrow> string \<Rightarrow> message \<Rightarrow> message" where
  "update_row st lg m =
     m\<lparr>status_m := (case st of None \<Rightarrow> status_m m | Some s \<Rightarrow> s), log_m := Some lg\<rparr>"

definition Message_update :: "nat \<Rightarrow> status option \<Rightarrow> string \<Rightarrow> world \<Rightarrow> world" where
  "Message_update i st lg w =
     emit (MessageUpdate i st lg)
       (w\<lparr>messages := map (\<lambda>m. if id_m m = i then update_row st lg m else m) (messages w)\<rparr>)"

section \<open>updateWorkerStatus (lines 10-22)\<close>

definition updateWorkerStatus :: "env \<Rightarrow> bool \<Rightarrow> world \<Rightarrow> world" where
  "updateWorkerStatus en initial w =
     (let t = env_now en (trace w) in
      if initial then
        emit (HeartbeatInit t)
          (if list_ex (\<lambda>s. type_s s = ''worker'') (settings w) then w
           else w\<lparr>settings := settings w @
                  [\<lparr>type_s = ''worker'', data_s = t, enabled_s = env_default_enabled en\<rparr>]\<rparr>)
      else
        emit (Heartbeat t)
          (w\<lparr>settings :=
               map (\<lambda>s. if type_s s = ''worker'' then s\<lparr>data_s := t\<rparr> else s) (settings w)\<rparr>))"

section \<open>screenshot (lines 32-73)\<close>

definition page_do :: "env \<Rightarrow> page_call \<Rightarrow> unit prog" where
  "page_do en c w =
     (let r = env_page en (trace w) c
      in ((case r of Some err \<Rightarrow> Inl err | None \<Rightarrow> Inr ()), emit (Page c r) w))"

definition failure_of :: "js_error + 'a \<Rightarrow> js_error option" where
  "failure_of r = (case r of Inl err \<Rightarrow> Some err | Inr _ \<Rightarrow> None)"

definition page_evaluate_string :: "env \<Rightarrow> page_script \<Rightarrow> string prog" where
  "page_evaluate_string en s w =
     (let r = env_page_string en (trace w) s in (r, emit (PageEvaluate s (failure_of r)) w))"

definition page_evaluate_bool :: "env \<Rightarrow> page_script \<Rightarrow> bool prog" where
  "page_evaluate_bool en s w =
     (let r = env_page_bool en (trace w) s in (r, emit (PageEvaluate s (failure_of r)) w))"

text \<open>Lines 34-39: the symbol page, with the exchange as a query parameter when the
  first two fields of \<^verbatim>\<open>symbol.split(":")\<close> are both non-empty.\<close>

definition symbol_url :: "string \<Rightarrow> string" where
  "symbol_url symbol =
     (case js_split CHR '':'' symbol of
        exchange # stock # _ \<Rightarrow>
          if exchange \<noteq> [] \<and> stock \<noteq> []
          then ''https://www.tradingview.com/symbols/'' @ stock @ ''/?exchange='' @ exchange
          else ''https://www.tradingview.com/symbols/'' @ symbol @ ''/''
      | _ \<Rightarrow> ''https://www.tradingview.com/symbols/'' @ symbol @ ''/'')"

definition screenshot :: "env \<Rightarrow> string \<Rightarrow> string \<Rightarrow> string prog" where
  \<open>screenshot en symbol timeframe w =
     bind_p (page_do en (Goto (symbol_url symbol))) (\<lambda>_.
     bind_p (page_do en (WaitForSelector ''a[href*="/chart/?"]'')) (\<lambda>_.
     bind_p (page_evaluate_string en ChartHref) (\<lambda>graph_url.
     bind_p (page_do en (Goto graph_url)) (\<lambda>_.
     bind_p (page_do en (WaitForSelector ''.menu-1fA401bY'')) (\<lambda>_.
     bind_p (page_do en (Click ''.menu-1fA401bY'')) (\<lambda>_.
     bind_p (page_do en (WaitForSelector ''.item-2xPVYue0'')) (\<lambda>_.
     bind_p (page_evaluate_string en (ClickTimeframe timeframe)) (\<lambda>_.
     bind_p (page_do en (WaitForSelector ''[class='chart-loading-screen']'')) (\<lambda>_.
     bind_p (page_do en (Click ''#header-toolbar-screenshot'')) (\<lambda>_.
     bind_p (page_do en (WaitForSelector ''[value*="https://www.tradingview.com/x/"]'')) (\<lambda>_.
     page_evaluate_string en ScreenshotValue)))))))))))
       (emit (ScreenshotCall symbol timeframe) w)\<close>

section \<open>processQueue (lines 80-165)\<close>

definition placeholder_image :: string where
  "placeholder_image = ''https://miro.medium.com/max/978/1*pUEZd8z__1p-7ICIO1NZFA.png''"

text \<open>Lines 114-133, with \<open>ss\<close> the screenshot settings row: the image for one channel.\<close>

definition screenshot_step ::
  "env \<Rightarrow> setting \<Rightarrow> nat \<Rightarrow> string option \<Rightarrow> string \<Rightarrow> world \<Rightarrow> string option \<times> world" where
  "screenshot_step en ss i timeframe symbol w =
     (if enabled_s ss then
        (case screenshot en symbol (js_or timeframe (data_s ss)) w of
           (Inr img, w1) \<Rightarrow>
             (Some img,
              updateWorkerStatus en False (emit (ConsoleLog (ScreenshotSUCCESS symbol)) w1))
         | (Inl err, w1) \<Rightarrow>
             (Some placeholder_image,
              updateWorkerStatus en False
                (emit (ConsoleLog (ScreenshotFAILED symbol))
                   (Message_update i None (JSON_stringify err) w1))))
      else (None, w))"

text \<open>Lines 136-159: one send and the row update that records its outcome.\<close>

definition dispatch_step ::
  "env \<Rightarrow> setting \<Rightarrow> string \<Rightarrow> nat \<Rightarrow> string \<Rightarrow> string \<Rightarrow> string option \<Rightarrow> world \<Rightarrow> world" where
  "dispatch_step en ss token i dat channel img w =
     (let c = (if enabled_s ss then SendPhoto channel img dat else SendMessage channel dat);
          r = env_telegram en (trace w) token c;
          w1 = emit (Telegram token c r) w
      in (case r of
            Inr response \<Rightarrow>
              emit (ConsoleLog (DispatchSUCCESS channel))
                (Message_update i (Some Success) response w1)
          | Inl err \<Rightarrow>
              emit (ConsoleLog (DispatchFAILED err))
                (Message_update i (Some Failed) (JSON_stringify err) w1)))"

text \<open>Lines 111-162: the body of the loop over the channels. The screenshot settings
  row is read at line 114 for the first time, so that is where a missing row throws.\<close>

definition processChannel ::
  "env \<Rightarrow> setting option \<Rightarrow> string \<Rightarrow> nat \<Rightarrow> string \<Rightarrow> string option \<Rightarrow> string \<Rightarrow> string
     \<Rightarrow> unit prog" where
  "processChannel en screenshot_settings token i dat timeframe symbol channel w =
     (case screenshot_settings of
        None \<Rightarrow> (Inl (null_read ''enabled''), w)
      | Some ss \<Rightarrow>
          (case screenshot_step en ss i timeframe symbol w of
             (img, w1) \<Rightarrow>
               (Inr (),
                updateWorkerStatus en False
                  (dispatch_step en ss token i dat channel img w1))))"

fun processChannels ::
  "env \<Rightarrow> setting option \<Rightarrow> string \<Rightarrow> nat \<Rightarrow> string \<Rightarrow> string option \<Rightarrow> string \<Rightarrow> string list
     \<Rightarrow> unit prog" where
  "processChannels en ss token i dat timeframe symbol [] w = (Inr (), w)"
| "processChannels en ss token i dat timeframe symbol (channel # rest) w =
     (case processChannel en ss token i dat timeframe symbol channel w of
        (Inl err, w1) \<Rightarrow> (Inl err, w1)
      | (Inr _, w1) \<Rightarrow> processChannels en ss token i dat timeframe symbol rest w1)"

text \<open>Line 105: \<^verbatim>\<open>data.split(" ")[0]\<close>.\<close>

definition symbol_of :: "string \<Rightarrow> string" where
  "symbol_of dat = (case js_split CHR '' '' dat of [] \<Rightarrow> [] | f # _ \<Rightarrow> f)"

text \<open>Lines 100-163: the body of the loop over the pending messages.\<close>

definition processMessage :: "env \<Rightarrow> setting option \<Rightarrow> string \<Rightarrow> message \<Rightarrow> unit prog" where
  "processMessage en screenshot_settings token m w =
     processChannels en screenshot_settings token (id_m m) (data_m m) (timeframe_m m)
       (symbol_of (data_m m)) (js_split CHR '','' (channels_m m))
       (emit (ConsoleLog (ProcessingMessageID (id_m m))) w)"

fun processMessages :: "env \<Rightarrow> setting option \<Rightarrow> string \<Rightarrow> message list \<Rightarrow> unit prog" where
  "processMessages en ss token [] w = (Inr (), w)"
| "processMessages en ss token (m # rest) w =
     (case processMessage en ss token m w of
        (Inl err, w1) \<Rightarrow> (Inl err, w1)
      | (Inr _, w1) \<Rightarrow> processMessages en ss token rest w1)"

definition processQueue :: "env \<Rightarrow> unit prog" where
  "processQueue en w =
     (let w1 = updateWorkerStatus en False w;
          (bot_settings, w2) = Setting_findOne ''telegram:bot'' w1;
          (screenshot_settings, w3) = Setting_findOne ''tradingview:screenshot'' w2;
          (pending_messages, w4) = Message_findAll_pending w3;
          w5 = emit (ConsoleLog (PendingMessages (length pending_messages))) w4
      in (case bot_settings of
            None \<Rightarrow> (Inl (null_read ''data''), w5)
          | Some b \<Rightarrow> processMessages en screenshot_settings (data_s b) pending_messages w5))"

section \<open>init (lines 170-254)\<close>

text \<open>
  Lines 207-222, the body of the \<^verbatim>\<open>try\<close>: the result is \<open>failed\<close>, whether the
  error dialog is on the page. A credential text without a colon leaves the password
  \<open>undefined\<close>.
\<close>

definition login_sequence :: "env \<Rightarrow> setting \<Rightarrow> bool prog" where
  \<open>login_sequence en credentials_settings =
     (let fields = js_split CHR '':'' (data_s credentials_settings);
          email = (case fields of [] \<Rightarrow> None | e # _ \<Rightarrow> Some e);
          password = (case fields of _ # p # _ \<Rightarrow> Some p | _ \<Rightarrow> None)
      in
     bind_p (page_do en (Goto ''https://www.tradingview.com/#signin'')) (\<lambda>_.
     bind_p (page_do en (Click ''span.js-show-email'')) (\<lambda>_.
     bind_p (page_do en (TypeText ''[name="username"]'' email)) (\<lambda>_.
     bind_p (page_do en (TypeText ''[name="password"]'' password)) (\<lambda>_.
     bind_p (page_do en (Click ''[type="submit"]'')) (\<lambda>_.
     bind_p (page_do en WaitForNavigationOrError) (\<lambda>_.
     page_evaluate_bool en LoginErrorPresent)))))))\<close>

text \<open>Lines 198-232.\<close>

definition login :: "env \<Rightarrow> unit prog" where
  "login en w =
     (let (credentials_settings, w1) = Setting_findOne ''tradingview:credentials'' w
      in (case credentials_settings of
            None \<Rightarrow> (Inl (null_read ''enabled''), w1)
          | Some c \<Rightarrow>
              if enabled_s c then
                (case login_sequence en c w1 of
                   (Inr login_failed, w2) \<Rightarrow>
                     (Inr (),
                      emit (ConsoleLog (if \<not> login_failed then LoginSUCCESS (data_s c)
                                        else LoginINVALID (data_s c))) w2)
                 | (Inl err, w2) \<Rightarrow> (Inr (), emit (ConsoleLog (LoginFAILED err)) w2))
              else (Inr (), w1)))"

text \<open>Lines 237-253: one turn of the \<^verbatim>\<open>while (true)\<close> loop, and \<open>n\<close> turns of it.\<close>

definition loop_iteration :: "env \<Rightarrow> world \<Rightarrow> world" where
  "loop_iteration en w =
     (let w1 = emit (ConsoleLog CheckingQueue) w;
          w2 = (case processQueue en w1 of
                  (Inl err, w') \<Rightarrow> emit (ConsoleLog (ProcessQueueFAILED err)) w'
                | (Inr _, w') \<Rightarrow> w');
          wait = 1;
          w3 = emit (ConsoleLog (RecheckQueueIn wait)) w2
      in emit (Sleep (wait * 1000)) w3)"

fun worker_loop :: "env \<Rightarrow> nat \<Rightarrow> world \<Rightarrow> world" where
  "worker_loop en 0 w = w"
| "worker_loop en (Suc n) w = worker_loop en n (loop_iteration en w)"

text \<open>
  \<open>init\<close> from line 178 on, for \<open>n\<close> turns of the loop. The schema synchronisation, the
  default rows and the browser launch of lines 176-194 are calls into modules outside
  \<^verbatim>\<open>src/\<close>; \<open>w\<close> is the state they leave.
\<close>

definition init :: "env \<Rightarrow> nat \<Rightarrow> world \<Rightarrow> (js_error + unit) \<times> world" where
  "init en n w =
     (let w1 = updateWorkerStatus en True (emit (ConsoleLog WorkerStarted) w);
          w2 = emit (ConsoleLog BrowserSessionOpened) w1
      in case login en w2 of
           (Inl err, w3) \<Rightarrow> (Inl err, w3)
         | (Inr _, w3) \<Rightarrow> (Inr (), worker_loop en n w3))"

section \<open>Reading a trace\<close>

text \<open>The events of one call of \<open>processQueue\<close>: what it appended to the trace.\<close>

definition cycle_events :: "env \<Rightarrow> world \<Rightarrow> event list" where
  "cycle_events en w = drop (length (trace w)) (trace (snd (processQueue en w)))"

text \<open>The rows that line 90 fetches.\<close>

definition pending_messages :: "world \<Rightarrow> message list" where
  "pending_messages w = filter (\<lambda>m. status_m m = Pending) (messages w)"

text \<open>The events of lines 82-94, before the loop over the messages.\<close>

definition cycle_prefix :: "env \<Rightarrow> world \<Rightarrow> event list" where
  "cycle_prefix en w =
     [Heartbeat (env_now en (trace w)), SettingFindOne ''telegram:bot'',
      SettingFindOne ''tradingview:screenshot'', MessageFindAllPending,
      ConsoleLog (PendingMessages (length (pending_messages w)))]"

text \<open>The sends in a trace with their results, and the calls of \<open>screenshot\<close>.\<close>

definition dispatches :: "event list \<Rightarrow> (tg_call \<times> (js_error + string)) list" where
  "dispatches evs = concat (map (\<lambda>e. case e of Telegram _ c r \<Rightarrow> [(c, r)] | _ \<Rightarrow> []) evs)"

definition screenshot_calls :: "event list \<Rightarrow> (string \<times> string) list" where
  "screenshot_calls evs =
     concat (map (\<lambda>e. case e of ScreenshotCall s t \<Rightarrow> [(s, t)] | _ \<Rightarrow> []) evs)"

definition channel_of :: "tg_call \<Rightarrow> string" where
  "channel_of c = (case c of SendPhoto ch _ _ \<Rightarrow> ch | SendMessage ch _ \<Rightarrow> ch)"

definition caption_of :: "tg_call \<Rightarrow> string option" where
  "caption_of c = (case c of SendPhoto _ _ caption \<Rightarrow> Some caption | SendMessage _ _ \<Rightarrow> None)"

text \<open>What lines 139-143 send, and what lines 145-158 write and print for a result.\<close>

definition dispatch_call :: "setting \<Rightarrow> string \<Rightarrow> string option \<Rightarrow> string \<Rightarrow> tg_call" where
  "dispatch_call ss ch img dat =
     (if enabled_s ss then SendPhoto ch img dat else SendMessage ch dat)"

definition outcome :: "js_error + string \<Rightarrow> status" where
  "outcome r = (case r of Inl _ \<Rightarrow> Failed | Inr _ \<Rightarrow> Success)"

definition result_text :: "js_error + string \<Rightarrow> string" where
  "result_text r = (case r of Inl err \<Rightarrow> JSON_stringify err | Inr response \<Rightarrow> response)"

definition dispatch_log :: "string \<Rightarrow> js_error + string \<Rightarrow> log_line" where
  "dispatch_log ch r = (case r of Inr _ \<Rightarrow> DispatchSUCCESS ch | Inl err \<Rightarrow> DispatchFAILED err)"

definition record_outcome :: "nat \<Rightarrow> js_error + string \<Rightarrow> message list \<Rightarrow> message list" where
  "record_outcome i res ms =
     map (\<lambda>m. if id_m m = i then update_row (Some (outcome res)) (result_text res) m else m) ms"

text \<open>A send of \<open>dat\<close> to \<open>ch\<close>: a photo with a caption when screenshots are enabled,
  a text message otherwise.\<close>

definition sent_to :: "setting \<Rightarrow> string \<Rightarrow> string \<Rightarrow> tg_call \<Rightarrow> bool" where
  "sent_to ss dat ch c =
     (case c of
        SendPhoto ch' img caption \<Rightarrow> enabled_s ss \<and> ch' = ch \<and> img \<noteq> None \<and> caption = dat
      | SendMessage ch' txt \<Rightarrow> \<not> enabled_s ss \<and> ch' = ch \<and> txt = dat)"

text \<open>
  Line 107 prints the id of a message before its channels are processed. That line
  delimits the events of one message: those after its id is printed, up to the next
  such line.
\<close>

definition is_marker :: "event \<Rightarrow> bool" where
  "is_marker e = (case e of ConsoleLog (ProcessingMessageID _) \<Rightarrow> True | _ \<Rightarrow> False)"

definition markers :: "event list \<Rightarrow> nat list" where
  "markers evs =
     concat (map (\<lambda>e. case e of ConsoleLog (ProcessingMessageID i) \<Rightarrow> [i] | _ \<Rightarrow> []) evs)"

fun after_marker :: "nat \<Rightarrow> event list \<Rightarrow> event list" where
  "after_marker i [] = []"
| "after_marker i (e # es) =
     (if e = ConsoleLog (ProcessingMessageID i) then es else after_marker i es)"

definition message_events :: "nat \<Rightarrow> event list \<Rightarrow> event list" where
  "message_events i evs = takeWhile (\<lambda>e. \<not> is_marker e) (after_marker i evs)"

definition last_result :: "nat \<Rightarrow> event list \<Rightarrow> js_error + string" where
  "last_result i evs = snd (last (dispatches (message_events i evs)))"

text \<open>A row after a cycle with events \<open>evs\<close>: the result of the last send of its
  message, when the message was processed.\<close>

definition settle :: "event list \<Rightarrow> message \<Rightarrow> message" where
  "settle evs x =
     (if id_m x \<in> set (markers evs)
      then update_row (Some (outcome (last_result (id_m x) evs)))
             (result_text (last_result (id_m x) evs)) x
      else x)"

text \<open>The sends and the screenshot calls of one message: one send per channel, in the
  order of the channels, and one screenshot call per channel when they are enabled.\<close>

definition message_trace :: "setting \<Rightarrow> message \<Rightarrow> event list \<Rightarrow> bool" where
  "message_trace ss m evs =
     (list_all2 (\<lambda>d ch. sent_to ss (data_m m) ch (fst d)) (dispatches evs)
        (js_split CHR '','' (channels_m m)) \<and>
      screenshot_calls evs =
        (if enabled_s ss
         then replicate (length (js_split CHR '','' (channels_m m)))
                (symbol_of (data_m m), js_or (timeframe_m m) (data_s ss))
         else []))"

text \<open>
  Heartbeats. A call to the tables or the console is local; the browser and Telegram are
  not. \<open>touched_before pre\<close>: the last call of \<open>pre\<close> that is not local is a heartbeat.
  \<open>touched_after post\<close>: the first call of \<open>post\<close> that is not local is a heartbeat.
\<close>

definition is_page :: "event \<Rightarrow> bool" where
  "is_page e = (case e of Page _ _ \<Rightarrow> True | PageEvaluate _ _ \<Rightarrow> True | _ \<Rightarrow> False)"

definition is_local :: "event \<Rightarrow> bool" where
  "is_local e =
     (case e of SettingFindOne _ \<Rightarrow> True | MessageFindAllPending \<Rightarrow> True
      | MessageUpdate _ _ _ \<Rightarrow> True | ConsoleLog _ \<Rightarrow> True | _ \<Rightarrow> False)"

definition is_heartbeat :: "event \<Rightarrow> bool" where
  "is_heartbeat e = (case e of Heartbeat _ \<Rightarrow> True | _ \<Rightarrow> False)"

definition touched_before :: "event list \<Rightarrow> bool" where
  "touched_before pre =
     (case dropWhile is_local (rev pre) of [] \<Rightarrow> False | e # _ \<Rightarrow> is_heartbeat e)"

definition touched_after :: "event list \<Rightarrow> bool" where
  "touched_after post =
     (case dropWhile is_local post of [] \<Rightarrow> False | e # _ \<Rightarrow> is_heartbeat e)"

text \<open>The same, read from left to right: \<open>fresh b evs\<close> is whether a heartbeat is the
  last call that is not local after \<open>evs\<close>, when \<open>b\<close> said so before; \<open>hb_ok b evs\<close>
  checks every screenshot call and every send of \<open>evs\<close> on the way.\<close>

fun fresh :: "bool \<Rightarrow> event list \<Rightarrow> bool" where
  "fresh b [] = b"
| "fresh b (e # es) = fresh (is_heartbeat e \<or> (is_local e \<and> b)) es"

fun hb_ok :: "bool \<Rightarrow> event list \<Rightarrow> bool" where
  "hb_ok b [] = True"
| "hb_ok b (e # es) =
     ((case e of
         ScreenshotCall _ _ \<Rightarrow> b
       | Telegram _ _ _ \<Rightarrow> touched_after es
       | Sleep _ \<Rightarrow> False
       | _ \<Rightarrow> True) \<and>
      hb_ok (is_heartbeat e \<or> (is_local e \<and> b)) es)"

text \<open>A computation that only calls the page: the tables stay as they are.\<close>

definition page_only :: "'a prog \<Rightarrow> bool" where
  "page_only m = (\<forall>w r w'. m w = (r, w') \<longrightarrow>
     messages w' = messages w \<and> settings w' = settings w \<and>
     (\<exists>evs. trace w' = trace w @ evs \<and> list_all is_page evs))"

section \<open>The words of the specification\<close>

text \<open>
  The specification speaks of the first whitespace-delimited token of the data and of
  the remainder after it. These two definitions follow those words; they are compared
  with \<open>symbol_of\<close> and with the caption that is sent.
\<close>

definition is_whitespace :: "char \<Rightarrow> bool" where
  "is_whitespace c =
     (c = CHR '' '' \<or> c = CHR 0x09 \<or> c = CHR 0x0A \<or> c = CHR 0x0B \<or> c = CHR 0x0C \<or>
      c = CHR 0x0D)"

definition first_whitespace_token :: "string \<Rightarrow> string" where
  "first_whitespace_token s = takeWhile (\<lambda>c. \<not> is_whitespace c) (dropWhile is_whitespace s)"

definition caption_after_symbol :: "string \<Rightarrow> string" where
  "caption_after_symbol s =
     dropWhile is_whitespace (dropWhile (\<lambda>c. \<not> is_whitespace c) (dropWhile is_whitespace s))"

section \<open>Example environments and states\<close>

text \<open>\<open>env_ok\<close>: every call succeeds. \<open>env_flaky\<close>: the browser times out at every call
  and Telegram refuses the channel \<open>chan2\<close>.\<close>

definition env_ok :: env where
  "env_ok =
     \<lparr>env_now = (\<lambda>tr. ''2021-03-01T09:30:00.000Z''),
      env_page = (\<lambda>tr c. None),
      env_page_string = (\<lambda>tr s. Inr ''https://www.tradingview.com/x/AbCd1234/''),
      env_page_bool = (\<lambda>tr s. Inr False),
      env_telegram = (\<lambda>tr tok c. Inr ''{message_id:7}''),
      env_default_enabled = True\<rparr>"

definition env_flaky :: env where
  "env_flaky =
     \<lparr>env_now = (\<lambda>tr. ''2021-03-01T09:30:00.000Z''),
      env_page = (\<lambda>tr c. Some (ExternalError ''{name:TimeoutError}'')),
      env_page_string = (\<lambda>tr s. Inl (ExternalError ''{name:TimeoutError}'')),
      env_page_bool = (\<lambda>tr s. Inl (ExternalError ''{name:TimeoutError}'')),
      env_telegram = (\<lambda>tr tok c.
        if channel_of c = ''chan2'' then Inl (ExternalError ''{code:403}'')
        else Inr ''{message_id:7}''),
      env_default_enabled = True\<rparr>"

definition row_worker :: setting where
  "row_worker =
     \<lparr>type_s = ''worker'', data_s = ''2021-03-01T09:00:00.000Z'', enabled_s = True\<rparr>"

definition row_bot :: setting where
  "row_bot = \<lparr>type_s = ''telegram:bot'', data_s = ''bot-token'', enabled_s = True\<rparr>"

definition row_screenshot :: setting where
  "row_screenshot = \<lparr>type_s = ''tradingview:screenshot'', data_s = ''1D'', enabled_s = True\<rparr>"

definition row_credentials :: setting where
  "row_credentials =
     \<lparr>type_s = ''tradingview:credentials'', data_s = ''trader@example.com:secret'',
      enabled_s = True\<rparr>"

definition row_credentials_off :: setting where
  "row_credentials_off =
     \<lparr>type_s = ''tradingview:credentials'', data_s = ''trader@example.com:secret'',
      enabled_s = False\<rparr>"

definition msg_aapl :: message where
  "msg_aapl =
     \<lparr>id_m = 1, data_m = ''NASDAQ:AAPL Buy now'', timeframe_m = None,
      channels_m = ''chan1,chan2'', status_m = Pending, log_m = None\<rparr>"

definition world_example :: world where
  "world_example =
     \<lparr>settings = [row_worker, row_bot, row_screenshot, row_credentials],
      messages = [msg_aapl], trace = []\<rparr>"

definition world_guest :: world where
  "world_guest =
     \<lparr>settings = [row_worker, row_bot, row_screenshot, row_credentials_off],
      messages = [msg_aapl], trace = []\<rparr>"

definition world_idle :: world where
  "world_idle =
     \<lparr>settings = [row_worker, row_bot, row_credentials], messages = [], trace = []\<rparr>"

definition world_no_screenshot :: world where
  "world_no_screenshot =
     \<lparr>settings = [row_worker, row_bot, row_credentials], messages = [msg_aapl], trace = []\<rparr>"

definition world_no_bot :: world where
  "world_no_bot =
     \<lparr>settings = [row_worker, row_screenshot, row_credentials], messages = [msg_aapl],
      trace = []\<rparr>"

text \<open>A message whose data has a tab after the ticker, and a state without the
  credentials row.\<close>

definition msg_tab :: message where
  "msg_tab =
     \<lparr>id_m = 2, data_m = ''AAPL'' @ [CHR 0x09] @ ''Buy now'', timeframe_m = None,
      channels_m = ''chan1'', status_m = Pending, log_m = None\<rparr>"

definition world_tab :: world where
  "world_tab =
     \<lparr>settings = [row_worker, row_bot, row_screenshot, row_credentials],
      messages = [msg_tab], trace = []\<rparr>"

definition world_no_credentials :: world where
  "world_no_credentials =
     \<lparr>settings = [row_worker, row_bot, row_screenshot], messages = [msg_aapl], trace = []\<rparr>"

section \<open>Lemmas\<close>

subsection \<open>The state after a primitive\<close>

lemma emit_simps [simp]:
  "trace (emit e w) = trace w @ [e]" "messages (emit e w) = messages w"
  "settings (emit e w) = settings w"
  by (simp_all add: emit_def)

lemma updateWorkerStatus_simps [simp]:
  "trace (updateWorkerStatus en False w) = trace w @ [Heartbeat (env_now en (trace w))]"
  "messages (updateWorkerStatus en b w) = messages w"
  by (simp_all add: updateWorkerStatus_def Let_def)

lemma Message_update_simps [simp]:
  "trace (Message_update i st lg w) = trace w @ [MessageUpdate i st lg]"
  "messages (Message_update i st lg w) =
     map (\<lambda>m. if id_m m = i then update_row st lg m else m) (messages w)"
  "settings (Message_update i st lg w) = settings w"
  by (simp_all add: Message_update_def)

subsection \<open>Computations that only call the page\<close>

text \<open>\<open>screenshot\<close> and the login sequence are chains of page calls: whatever the
  page answers, they append page events and leave the tables alone.\<close>

lemma page_only_page_do: "page_only (page_do en c)"
  by (auto simp: page_only_def page_do_def Let_def is_page_def)

lemma page_only_evaluate_string: "page_only (page_evaluate_string en s)"
  by (auto simp: page_only_def page_evaluate_string_def Let_def is_page_def)

lemma page_only_evaluate_bool: "page_only (page_evaluate_bool en s)"
  by (auto simp: page_only_def page_evaluate_bool_def Let_def is_page_def)

lemma page_only_bind:
  assumes "page_only m" and "\<And>x. page_only (f x)"
  shows "page_only (bind_p m f)"
  unfolding page_only_def
proof (intro allI impI)
  fix w r w'
  assume run: "bind_p m f w = (r, w')"
  obtain r1 w1 where m: "m w = (r1, w1)" by (cases "m w")
  from assms(1) m obtain e1 where
    s1: "messages w1 = messages w" "settings w1 = settings w"
        "trace w1 = trace w @ e1" "list_all is_page e1"
    unfolding page_only_def by blast
  show "messages w' = messages w \<and> settings w' = settings w \<and>
        (\<exists>evs. trace w' = trace w @ evs \<and> list_all is_page evs)"
  proof (cases r1)
    case (Inl err)
    with run m have "w' = w1" by (simp add: bind_p_def)
    with s1 show ?thesis by auto
  next
    case (Inr x)
    with run m have "f x w1 = (r, w')" by (simp add: bind_p_def)
    with assms(2)[of x] obtain e2 where
      "messages w' = messages w1" "settings w' = settings w1"
      "trace w' = trace w1 @ e2" "list_all is_page e2"
      unfolding page_only_def by blast
    with s1 show ?thesis by auto
  qed
qed

lemmas page_only_intros =
  page_only_bind page_only_page_do page_only_evaluate_string

lemma page_onlyD:
  "m w0 = (r, w') \<Longrightarrow> page_only m \<Longrightarrow>
   messages w' = messages w0 \<and> settings w' = settings w0 \<and>
   (\<exists>evs. trace w' = trace w0 @ evs \<and> list_all is_page evs)"
  unfolding page_only_def by blast

lemma screenshot_trace:
  assumes "screenshot en symbol timeframe w = (r, w')"
  shows "messages w' = messages w \<and> settings w' = settings w \<and>
         (\<exists>evs. trace w' = trace w @ ScreenshotCall symbol timeframe # evs \<and> list_all is_page evs)"
proof -
  from assms[unfolded screenshot_def]
  have "messages w' = messages (emit (ScreenshotCall symbol timeframe) w) \<and>
        settings w' = settings (emit (ScreenshotCall symbol timeframe) w) \<and>
        (\<exists>evs. trace w' = trace (emit (ScreenshotCall symbol timeframe) w) @ evs \<and>
               list_all is_page evs)"
    by (rule page_onlyD) (intro page_only_intros)
  then show ?thesis by simp
qed

lemma login_sequence_trace:
  assumes "login_sequence en c w = (r, w')"
  shows "messages w' = messages w \<and> settings w' = settings w \<and>
         (\<exists>evs. trace w' = trace w @ evs \<and> list_all is_page evs)"
proof -
  have "page_only (login_sequence en c)"
    unfolding login_sequence_def Let_def by (intro page_only_intros page_only_evaluate_bool)
  then show ?thesis using assms unfolding page_only_def by blast
qed

subsection \<open>One channel\<close>

text \<open>The events and the rows after the screenshot step, after the send, and after the
  whole body of the channel loop, for any answers of the browser and of Telegram.\<close>

lemma update_row_twice [simp]:
  "update_row (Some s) lg (update_row st lg0 m) = update_row (Some s) lg m"
  by (simp add: update_row_def)

lemma update_row_fields [simp]:
  "id_m (update_row st lg m) = id_m m"
  "data_m (update_row st lg m) = data_m m"
  "channels_m (update_row st lg m) = channels_m m"
  "timeframe_m (update_row st lg m) = timeframe_m m"
  "log_m (update_row st lg m) = Some lg"
  "status_m (update_row (Some s) lg m) = s"
  "status_m (update_row None lg m) = status_m m"
  by (simp_all add: update_row_def)

lemma dispatch_step_shape:
  "\<exists>res. env_telegram en (trace w) tok (dispatch_call ss ch img dat) = res \<and>
     trace (dispatch_step en ss tok i dat ch img w) =
       trace w @ [Telegram tok (dispatch_call ss ch img dat) res,
                  MessageUpdate i (Some (outcome res)) (result_text res),
                  ConsoleLog (dispatch_log ch res)] \<and>
     messages (dispatch_step en ss tok i dat ch img w) =
       map (\<lambda>m. if id_m m = i then update_row (Some (outcome res)) (result_text res) m else m)
         (messages w)"
  by (cases "env_telegram en (trace w) tok (dispatch_call ss ch img dat)")
     (simp_all add: dispatch_step_def dispatch_call_def Let_def outcome_def result_text_def
        dispatch_log_def)

lemma screenshot_step_disabled:
  "\<not> enabled_s ss \<Longrightarrow> screenshot_step en ss i tf sy w = (None, w)"
  by (simp add: screenshot_step_def)

lemma screenshot_step_enabled:
  assumes "enabled_s ss" and "screenshot_step en ss i tf sy w = (img, w1)"
  shows "\<exists>pages tail t u.
     trace w1 = trace w @ ScreenshotCall sy (js_or tf (data_s ss)) # pages @ tail @ [Heartbeat t] \<and>
     list_all is_page pages \<and>
     ((tail = [ConsoleLog (ScreenshotSUCCESS sy)] \<and> img = Some u \<and> messages w1 = messages w) \<or>
      (\<exists>err. tail = [MessageUpdate i None (JSON_stringify err), ConsoleLog (ScreenshotFAILED sy)] \<and>
         img = Some placeholder_image \<and>
         messages w1 = map (\<lambda>m. if id_m m = i then update_row None (JSON_stringify err) m else m)
                         (messages w)))"
proof -
  obtain r w0 where s: "screenshot en sy (js_or tf (data_s ss)) w = (r, w0)"
    by (cases "screenshot en sy (js_or tf (data_s ss)) w")
  from screenshot_trace[OF s] obtain pages where
    p: "messages w0 = messages w"
       "trace w0 = trace w @ ScreenshotCall sy (js_or tf (data_s ss)) # pages"
       "list_all is_page pages"
    by blast
  show ?thesis
  proof (cases r)
    case (Inl err)
    with assms s have
      w1: "w1 = updateWorkerStatus en False (emit (ConsoleLog (ScreenshotFAILED sy))
                  (Message_update i None (JSON_stringify err) w0))"
      and img: "img = Some placeholder_image"
      by (auto simp: screenshot_step_def)
    let ?tail = "[MessageUpdate i None (JSON_stringify err), ConsoleLog (ScreenshotFAILED sy)]"
    have "trace w1 = trace w @ ScreenshotCall sy (js_or tf (data_s ss)) # pages @ ?tail @
            [Heartbeat (env_now en (trace w0 @ ?tail))]"
      using p by (simp add: w1)
    moreover have "messages w1 =
        map (\<lambda>m. if id_m m = i then update_row None (JSON_stringify err) m else m) (messages w)"
      using p by (simp add: w1)
    ultimately show ?thesis using img p(3) by blast
  next
    case (Inr u)
    with assms s have
      w1: "w1 = updateWorkerStatus en False (emit (ConsoleLog (ScreenshotSUCCESS sy)) w0)"
      and img: "img = Some u"
      by (auto simp: screenshot_step_def)
    let ?tail = "[ConsoleLog (ScreenshotSUCCESS sy)]"
    have "trace w1 = trace w @ ScreenshotCall sy (js_or tf (data_s ss)) # pages @ ?tail @
            [Heartbeat (env_now en (trace w0 @ ?tail))]"
      using p by (simp add: w1)
    moreover have "messages w1 = messages w"
      using p by (simp add: w1)
    ultimately show ?thesis using img p(3) by blast
  qed
qed

lemma dispatches_simps [simp]:
  "dispatches [] = []"
  "dispatches (xs @ ys) = dispatches xs @ dispatches ys"
  "dispatches (Telegram tok c r # xs) = (c, r) # dispatches xs"
  "dispatches (Heartbeat t # xs) = dispatches xs"
  "dispatches (MessageUpdate i st lg # xs) = dispatches xs"
  "dispatches (ConsoleLog l # xs) = dispatches xs"
  "dispatches (ScreenshotCall s tf # xs) = dispatches xs"
  "dispatches (SettingFindOne ty # xs) = dispatches xs"
  "dispatches (MessageFindAllPending # xs) = dispatches xs"
  by (simp_all add: dispatches_def)

lemma screenshot_calls_simps [simp]:
  "screenshot_calls [] = []"
  "screenshot_calls (xs @ ys) = screenshot_calls xs @ screenshot_calls ys"
  "screenshot_calls (Telegram tok c r # xs) = screenshot_calls xs"
  "screenshot_calls (Heartbeat t # xs) = screenshot_calls xs"
  "screenshot_calls (MessageUpdate i st lg # xs) = screenshot_calls xs"
  "screenshot_calls (ConsoleLog l # xs) = screenshot_calls xs"
  "screenshot_calls (ScreenshotCall s tf # xs) = (s, tf) # screenshot_calls xs"
  "screenshot_calls (SettingFindOne ty # xs) = screenshot_calls xs"
  "screenshot_calls (MessageFindAllPending # xs) = screenshot_calls xs"
  by (simp_all add: screenshot_calls_def)

lemma pages_project:
  "list_all is_page xs \<Longrightarrow> dispatches xs = [] \<and> screenshot_calls xs = [] \<and> \<not> list_ex is_marker xs"
  by (induction xs)
     (auto simp: is_page_def dispatches_def screenshot_calls_def is_marker_def split: event.splits)

lemma is_marker_simps [simp]:
  "is_marker (ConsoleLog l) = (\<exists>i. l = ProcessingMessageID i)"
  "\<not> is_marker (Telegram tok c r)"
  "\<not> is_marker (Heartbeat t)"
  "\<not> is_marker (MessageUpdate i st lg)"
  "\<not> is_marker (ScreenshotCall s tf)"
  "\<not> is_marker (SettingFindOne ty)"
  "\<not> is_marker MessageFindAllPending"
  by (auto simp: is_marker_def split: log_line.splits)

lemma dispatch_log_not_marker [simp]: "dispatch_log ch res \<noteq> ProcessingMessageID i"
  by (simp add: dispatch_log_def split: sum.splits)

lemma processChannel_Some:
  assumes "processChannel en (Some ss) tok i dat tf sy ch w = (r, w')"
  shows "r = Inr () \<and>
    (\<exists>evs c res. trace w' = trace w @ evs \<and> \<not> list_ex is_marker evs \<and>
       dispatches evs = [(c, res)] \<and> sent_to ss dat ch c \<and>
       screenshot_calls evs = (if enabled_s ss then [(sy, js_or tf (data_s ss))] else []) \<and>
       messages w' = record_outcome i res (messages w))"
proof -
  obtain img w1 where st: "screenshot_step en ss i tf sy w = (img, w1)"
    by (cases "screenshot_step en ss i tf sy w")
  let ?w2 = "dispatch_step en ss tok i dat ch img w1"
  from assms st have r: "r = Inr ()" and w': "w' = updateWorkerStatus en False ?w2"
    by (auto simp: processChannel_def)
  from dispatch_step_shape[of en w1 tok ss ch img dat i] obtain res where
    d: "trace ?w2 = trace w1 @ [Telegram tok (dispatch_call ss ch img dat) res,
            MessageUpdate i (Some (outcome res)) (result_text res),
            ConsoleLog (dispatch_log ch res)]"
       "messages ?w2 = record_outcome i res (messages w1)"
    unfolding record_outcome_def by blast
  show ?thesis
  proof (cases "enabled_s ss")
    case False
    with st have "img = None" "w1 = w" by (simp_all add: screenshot_step_disabled)
    with d False r w' show ?thesis
      by (simp add: sent_to_def dispatch_call_def)
  next
    case True
    from screenshot_step_enabled[OF True st] obtain pages tail t u where
      s: "trace w1 = trace w @ ScreenshotCall sy (js_or tf (data_s ss)) # pages @ tail @ [Heartbeat t]"
         "list_all is_page pages"
         "(tail = [ConsoleLog (ScreenshotSUCCESS sy)] \<and> img = Some u \<and> messages w1 = messages w) \<or>
          (\<exists>err. tail = [MessageUpdate i None (JSON_stringify err), ConsoleLog (ScreenshotFAILED sy)] \<and>
             img = Some placeholder_image \<and>
             messages w1 = map (\<lambda>m. if id_m m = i then update_row None (JSON_stringify err) m else m)
                         (messages w))"
      by blast
    from s(3) have tail: "dispatches tail = []" "screenshot_calls tail = []"
        "\<not> list_ex is_marker tail" "img \<noteq> None"
        "record_outcome i res (messages w1) = record_outcome i res (messages w)"
      by (auto simp: record_outcome_def)
    from pages_project[OF s(2)] tail d s(1) True r w' show ?thesis
      by (simp add: sent_to_def dispatch_call_def)
  qed
qed

subsection \<open>The channels of one message\<close>

lemma js_split_not_Nil [simp]: "js_split c s \<noteq> []"
  by (induction s) (auto split: list.splits)

lemma markers_simps [simp]:
  "markers [] = []"
  "markers (xs @ ys) = markers xs @ markers ys"
  "markers (ConsoleLog (ProcessingMessageID i) # xs) = i # markers xs"
  by (simp_all add: markers_def)

lemma markers_Cons: "markers (e # xs) = markers [e] @ markers xs"
  by (simp add: markers_def)

lemma markers_empty_iff: "markers xs = [] \<longleftrightarrow> \<not> list_ex is_marker xs"
  by (induction xs) (auto simp: markers_def is_marker_def split: event.splits log_line.splits)

lemma after_marker_skip: "markers xs = [] \<Longrightarrow> after_marker i (xs @ ys) = after_marker i ys"
  by (induction xs) (auto simp: markers_def split: if_splits)

lemma takeWhile_segment:
  "markers xs = [] \<Longrightarrow> ys = [] \<or> is_marker (hd ys) \<Longrightarrow>
   takeWhile (\<lambda>e. \<not> is_marker e) (xs @ ys) = xs"
  by (cases ys) (auto simp: markers_empty_iff list_ex_iff)

lemma record_outcome_twice [simp]:
  "record_outcome i r2 (record_outcome i r1 ms) = record_outcome i r2 ms"
  by (simp add: record_outcome_def)

lemma processChannels_Some:
  assumes "processChannels en (Some ss) tok i dat tf sy chs w = (r, w')"
  shows "r = Inr () \<and>
    (\<exists>evs. trace w' = trace w @ evs \<and> markers evs = [] \<and>
       list_all2 (\<lambda>d ch. sent_to ss dat ch (fst d)) (dispatches evs) chs \<and>
       screenshot_calls evs =
         (if enabled_s ss then replicate (length chs) (sy, js_or tf (data_s ss)) else []) \<and>
       messages w' =
         (if chs = [] then messages w
          else record_outcome i (snd (last (dispatches evs))) (messages w)))"
  using assms
proof (induction chs arbitrary: w)
  case Nil
  then show ?case by simp
next
  case (Cons ch rest)
  obtain r1 w1 where one: "processChannel en (Some ss) tok i dat tf sy ch w = (r1, w1)"
    by (cases "processChannel en (Some ss) tok i dat tf sy ch w")
  from processChannel_Some[OF one] obtain e1 c res where
    a: "r1 = Inr ()" "trace w1 = trace w @ e1" "markers e1 = []"
       "dispatches e1 = [(c, res)]" "sent_to ss dat ch c"
       "screenshot_calls e1 = (if enabled_s ss then [(sy, js_or tf (data_s ss))] else [])"
       "messages w1 = record_outcome i res (messages w)"
    by (auto simp: markers_empty_iff)
  from Cons.prems one a(1) have
    run: "processChannels en (Some ss) tok i dat tf sy rest w1 = (r, w')"
    by simp
  from Cons.IH[OF run] obtain e2 where
    b: "r = Inr ()" "trace w' = trace w1 @ e2" "markers e2 = []"
       "list_all2 (\<lambda>d ch. sent_to ss dat ch (fst d)) (dispatches e2) rest"
       "screenshot_calls e2 =
          (if enabled_s ss then replicate (length rest) (sy, js_or tf (data_s ss)) else [])"
       "messages w' =
          (if rest = [] then messages w1
           else record_outcome i (snd (last (dispatches e2))) (messages w1))"
    by blast
  have ne: "rest \<noteq> [] \<Longrightarrow> dispatches e2 \<noteq> []"
    using b(4) by (auto simp: list_all2_Cons2 neq_Nil_conv)
  have e: "rest = [] \<Longrightarrow> dispatches e2 = []"
    using b(4) by auto
  have "trace w' = trace w @ (e1 @ e2)" using a b by simp
  moreover have "markers (e1 @ e2) = []" using a b by simp
  moreover have "list_all2 (\<lambda>d ch. sent_to ss dat ch (fst d)) (dispatches (e1 @ e2)) (ch # rest)"
    using a b by simp
  moreover have "screenshot_calls (e1 @ e2) =
      (if enabled_s ss then replicate (length (ch # rest)) (sy, js_or tf (data_s ss)) else [])"
    using a b by simp
  moreover have "messages w' = record_outcome i (snd (last (dispatches (e1 @ e2)))) (messages w)"
    using a b ne e by (cases "rest = []") simp_all
  ultimately show ?case using b(1) by (intro conjI exI[of _ "e1 @ e2"]) simp_all
qed

lemma processMessage_Some:
  assumes "processMessage en (Some ss) tok m w = (r, w')"
  shows "r = Inr () \<and>
    (\<exists>evs. trace w' = trace w @ ConsoleLog (ProcessingMessageID (id_m m)) # evs \<and>
       markers evs = [] \<and> message_trace ss m evs \<and>
       messages w' = record_outcome (id_m m) (snd (last (dispatches evs))) (messages w))"
proof -
  from processChannels_Some[OF assms[unfolded processMessage_def]]
  show ?thesis by (auto simp: message_trace_def)
qed

subsection \<open>The pending messages\<close>

text \<open>With distinct ids, the events between two id lines are those of one message, and
  the rows after the loop are settled by the last send of each message.\<close>

lemma message_events_own:
  "markers e1 = [] \<Longrightarrow> e2 = [] \<or> is_marker (hd e2) \<Longrightarrow>
   message_events i (ConsoleLog (ProcessingMessageID i) # e1 @ e2) = e1"
  by (simp add: message_events_def takeWhile_segment)

lemma message_events_other:
  "markers e1 = [] \<Longrightarrow> j \<noteq> i \<Longrightarrow>
   message_events i (ConsoleLog (ProcessingMessageID j) # e1 @ e2) = message_events i e2"
  by (simp add: message_events_def after_marker_skip)

lemma settle_step:
  assumes "markers e1 = []" and "e2 = [] \<or> is_marker (hd e2)" and "j \<notin> set (markers e2)"
  shows "map (settle e2) (record_outcome j (snd (last (dispatches e1))) ms) =
         map (settle (ConsoleLog (ProcessingMessageID j) # e1 @ e2)) ms"
proof -
  let ?evs = "ConsoleLog (ProcessingMessageID j) # e1 @ e2"
  have "settle e2 (if id_m x = j
          then update_row (Some (outcome (snd (last (dispatches e1)))))
                 (result_text (snd (last (dispatches e1)))) x
          else x) = settle ?evs x" for x
  proof (cases "id_m x = j")
    case True
    with assms show ?thesis
      by (simp add: settle_def last_result_def message_events_own)
  next
    case False
    with assms(1) show ?thesis
      by (simp add: settle_def last_result_def message_events_other)
  qed
  then show ?thesis by (simp add: record_outcome_def)
qed

lemma processMessages_Some:
  assumes "processMessages en (Some ss) tok ms w = (r, w')" and "distinct (map id_m ms)"
  shows "r = Inr () \<and>
    (\<exists>evs. trace w' = trace w @ evs \<and> markers evs = map id_m ms \<and>
       (evs = [] \<or> is_marker (hd evs)) \<and>
       (\<forall>m\<in>set ms. message_trace ss m (message_events (id_m m) evs)) \<and>
       messages w' = map (settle evs) (messages w))"
  using assms
proof (induction ms arbitrary: w)
  case Nil
  then show ?case by (simp add: settle_def)
next
  case (Cons m rest)
  obtain r1 w1 where one: "processMessage en (Some ss) tok m w = (r1, w1)"
    by (cases "processMessage en (Some ss) tok m w")
  from processMessage_Some[OF one] obtain e1 where
    a: "r1 = Inr ()" "trace w1 = trace w @ ConsoleLog (ProcessingMessageID (id_m m)) # e1"
       "markers e1 = []" "message_trace ss m e1"
       "messages w1 = record_outcome (id_m m) (snd (last (dispatches e1))) (messages w)"
    by blast
  from Cons.prems one a(1) have
    run: "processMessages en (Some ss) tok rest w1 = (r, w')" by simp
  from Cons.prems have d: "distinct (map id_m rest)" "id_m m \<notin> id_m ` set rest" by simp_all
  from Cons.IH[OF run d(1)] obtain e2 where
    b: "r = Inr ()" "trace w' = trace w1 @ e2" "markers e2 = map id_m rest"
       "e2 = [] \<or> is_marker (hd e2)"
       "\<forall>x\<in>set rest. message_trace ss x (message_events (id_m x) e2)"
       "messages w' = map (settle e2) (messages w1)"
    by blast
  let ?evs = "ConsoleLog (ProcessingMessageID (id_m m)) # e1 @ e2"
  have "trace w' = trace w @ ?evs" using a b by simp
  moreover have "markers ?evs = map id_m (m # rest)" using a b by simp
  moreover have "is_marker (hd ?evs)" by simp
  moreover have "\<forall>x\<in>set (m # rest). message_trace ss x (message_events (id_m x) ?evs)"
  proof
    fix x assume x: "x \<in> set (m # rest)"
    show "message_trace ss x (message_events (id_m x) ?evs)"
    proof (cases "id_m x = id_m m")
      case True
      with x d(2) have "x = m" by (metis imageI set_ConsD)
      with a b(4) show ?thesis by (simp add: message_events_own)
    next
      case False
      with x have "x \<in> set rest" by auto
      with b(5) False a(3) show ?thesis by (simp add: message_events_other)
    qed
  qed
  moreover have "messages w' = map (settle ?evs) (messages w)"
    using settle_step[OF a(3) b(4), of "id_m m" "messages w"] d(2) a(5) b(3,6) by simp
  ultimately show ?case using b(1) by (intro conjI exI[of _ ?evs]) simp_all
qed

subsection \<open>The cycle unfolded\<close>

lemma find_touch:
  "ty \<noteq> ''worker'' \<Longrightarrow>
   find (\<lambda>s. type_s s = ty) (map (\<lambda>s. if type_s s = ''worker'' then s\<lparr>data_s := t\<rparr> else s) xs) =
   find (\<lambda>s. type_s s = ty) xs"
  by (induction xs) auto

lemma processQueue_unfold:
  "processQueue en w =
     (let w5 = emit (ConsoleLog (PendingMessages (length (pending_messages w))))
                 (emit MessageFindAllPending
                   (emit (SettingFindOne ''tradingview:screenshot'')
                     (emit (SettingFindOne ''telegram:bot'') (updateWorkerStatus en False w))))
      in (case find (\<lambda>s. type_s s = ''telegram:bot'') (settings w) of
            None \<Rightarrow> (Inl (null_read ''data''), w5)
          | Some b \<Rightarrow>
              processMessages en (find (\<lambda>s. type_s s = ''tradingview:screenshot'') (settings w))
                (data_s b) (pending_messages w) w5))"
  by (simp add: processQueue_def Setting_findOne_def Message_findAll_pending_def Let_def
      pending_messages_def updateWorkerStatus_def find_touch split: option.split)

subsection \<open>Heartbeats\<close>

text \<open>\<open>hb_ok\<close> composes over appended traces, and every level of the cycle starts and
  ends touched. This holds with or without the configuration rows.\<close>

lemma touched_after_append:
  assumes "touched_after xs"
  shows "touched_after (xs @ ys)"
proof -
  from assms obtain x rest where eq: "dropWhile is_local xs = x # rest"
    by (cases "dropWhile is_local xs") (simp_all add: touched_after_def)
  have "x \<in> set xs"
    using eq set_dropWhileD[of x is_local xs] by simp
  moreover have "\<not> is_local x"
    using eq hd_dropWhile[of is_local xs] by simp
  ultimately have "x \<in> set xs" "\<not> is_local x" .
  then have "dropWhile is_local (xs @ ys) = dropWhile is_local xs @ ys"
    by (rule dropWhile_append1)
  with assms show ?thesis
    by (simp add: touched_after_def eq)
qed

lemma hb_ok_append: "hb_ok b xs \<Longrightarrow> hb_ok (fresh b xs) ys \<Longrightarrow> hb_ok b (xs @ ys)"
  by (induction xs arbitrary: b) (auto simp: touched_after_append split: event.splits)

lemma fresh_append: "fresh b (xs @ ys) = fresh (fresh b xs) ys"
  by (induction xs arbitrary: b) auto

lemma fresh_touched: "fresh b pre = (touched_before pre \<or> (b \<and> list_all is_local pre))"
proof (induction pre rule: rev_induct)
  case Nil
  then show ?case by (simp add: touched_before_def)
next
  case (snoc e pre)
  then show ?case
    by (auto simp: fresh_append touched_before_def is_local_def is_heartbeat_def split: event.splits)
qed

lemma hb_ok_screenshot: "hb_ok b (pre @ ScreenshotCall s tf # post) \<Longrightarrow> fresh b pre"
  by (induction pre arbitrary: b) auto

lemma hb_ok_telegram: "hb_ok b (pre @ Telegram tok c r # post) \<Longrightarrow> touched_after post"
  by (induction pre arbitrary: b) auto

lemma hb_ok_no_sleep: "hb_ok b evs \<Longrightarrow> Sleep k \<notin> set evs"
  by (induction evs arbitrary: b) auto

lemma hb_ok_pages: "list_all is_page xs \<Longrightarrow> hb_ok b xs"
  by (induction xs arbitrary: b) (auto simp: is_page_def split: event.splits)

lemma hb_ok_local: "list_all is_local xs \<Longrightarrow> hb_ok b xs"
  by (induction xs arbitrary: b) (auto simp: is_local_def split: event.splits)

lemma fresh_heartbeat_last [simp]: "fresh b (xs @ [Heartbeat t])"
  by (simp add: fresh_append is_heartbeat_def)

lemma processChannel_hb:
  assumes "processChannel en sso tok i dat tf sy ch w = (r, w')"
  shows "\<exists>evs. trace w' = trace w @ evs \<and> hb_ok True evs \<and> fresh True evs"
proof (cases sso)
  case None
  with assms show ?thesis by (simp add: processChannel_def)
next
  case (Some ss)
  obtain img w1 where st: "screenshot_step en ss i tf sy w = (img, w1)"
    by (cases "screenshot_step en ss i tf sy w")
  let ?w2 = "dispatch_step en ss tok i dat ch img w1"
  from assms st Some have w': "w' = updateWorkerStatus en False ?w2"
    by (auto simp: processChannel_def)
  from dispatch_step_shape[of en w1 tok ss ch img dat i] obtain res where
    d: "trace ?w2 = trace w1 @ [Telegram tok (dispatch_call ss ch img dat) res,
            MessageUpdate i (Some (outcome res)) (result_text res),
            ConsoleLog (dispatch_log ch res)]"
    by blast
  let ?tail = "[Telegram tok (dispatch_call ss ch img dat) res,
            MessageUpdate i (Some (outcome res)) (result_text res),
            ConsoleLog (dispatch_log ch res), Heartbeat (env_now en (trace ?w2))]"
  have tail: "hb_ok b ?tail" "fresh b ?tail" for b
    by (simp_all add: touched_after_def is_local_def is_heartbeat_def)
  have "\<exists>shot. trace w1 = trace w @ shot \<and> hb_ok True shot \<and> fresh True shot"
  proof (cases "enabled_s ss")
    case False
    with st show ?thesis by (simp add: screenshot_step_disabled)
  next
    case True
    from screenshot_step_enabled[OF True st] obtain pages tail t where
      s: "trace w1 = trace w @ ScreenshotCall sy (js_or tf (data_s ss)) # pages @ tail @ [Heartbeat t]"
         "list_all is_page pages" "list_all is_local tail"
      by (auto simp: is_local_def)
    let ?shot = "ScreenshotCall sy (js_or tf (data_s ss)) # (pages @ tail) @ [Heartbeat t]"
    have "hb_ok b (tail @ [Heartbeat t])" for b
      using s(3) by (intro hb_ok_append) (simp_all add: hb_ok_local)
    then have "hb_ok False (pages @ tail @ [Heartbeat t])"
      using s(2) by (rule_tac hb_ok_append) (simp_all add: hb_ok_pages)
    then have "hb_ok True ?shot" by (simp add: is_heartbeat_def is_local_def)
    moreover have "fresh True ?shot" by (simp only: fresh.simps fresh_heartbeat_last)
    ultimately show ?thesis using s(1) by auto
  qed
  then obtain shot where shot: "trace w1 = trace w @ shot" "hb_ok True shot" "fresh True shot"
    by blast
  have "trace w' = trace w @ (shot @ ?tail)" using w' d shot by simp
  moreover have "hb_ok True (shot @ ?tail)" using shot tail by (intro hb_ok_append)
  moreover have "fresh True (shot @ ?tail)" using tail by (simp only: fresh_append)
  ultimately show ?thesis by blast
qed

lemma processChannels_hb:
  assumes "processChannels en sso tok i dat tf sy chs w = (r, w')"
  shows "\<exists>evs. trace w' = trace w @ evs \<and> hb_ok True evs \<and> fresh True evs"
  using assms
proof (induction chs arbitrary: w)
  case Nil
  then show ?case by simp
next
  case (Cons ch rest)
  obtain r1 w1 where one: "processChannel en sso tok i dat tf sy ch w = (r1, w1)"
    by (cases "processChannel en sso tok i dat tf sy ch w")
  from processChannel_hb[OF one] obtain e1 where
    a: "trace w1 = trace w @ e1" "hb_ok True e1" "fresh True e1" by blast
  show ?case
  proof (cases r1)
    case (Inl err)
    with Cons.prems one have "w' = w1" by simp
    with a show ?thesis by blast
  next
    case (Inr u)
    with Cons.prems one have "processChannels en sso tok i dat tf sy rest w1 = (r, w')" by simp
    from Cons.IH[OF this] obtain e2 where
      b: "trace w' = trace w1 @ e2" "hb_ok True e2" "fresh True e2" by blast
    have "trace w' = trace w @ (e1 @ e2)" using a b by simp
    moreover have "hb_ok True (e1 @ e2)" using a b by (intro hb_ok_append) simp_all
    moreover have "fresh True (e1 @ e2)" using a b by (simp add: fresh_append)
    ultimately show ?thesis by blast
  qed
qed

lemma processMessage_hb:
  assumes "processMessage en sso tok m w = (r, w')"
  shows "\<exists>evs. trace w' = trace w @ evs \<and> hb_ok True evs \<and> fresh True evs"
proof -
  from processChannels_hb[OF assms[unfolded processMessage_def]] obtain e where
    "trace w' = trace w @ ConsoleLog (ProcessingMessageID (id_m m)) # e"
    "hb_ok True e" "fresh True e"
    by auto
  then show ?thesis
    by (intro exI[of _ "ConsoleLog (ProcessingMessageID (id_m m)) # e"])
       (simp add: is_local_def is_heartbeat_def)
qed

lemma processMessages_hb:
  assumes "processMessages en sso tok ms w = (r, w')"
  shows "\<exists>evs. trace w' = trace w @ evs \<and> hb_ok True evs \<and> fresh True evs"
  using assms
proof (induction ms arbitrary: w)
  case Nil
  then show ?case by simp
next
  case (Cons m rest)
  obtain r1 w1 where one: "processMessage en sso tok m w = (r1, w1)"
    by (cases "processMessage en sso tok m w")
  from processMessage_hb[OF one] obtain e1 where
    a: "trace w1 = trace w @ e1" "hb_ok True e1" "fresh True e1" by blast
  show ?case
  proof (cases r1)
    case (Inl err)
    with Cons.prems one have "w' = w1" by simp
    with a show ?thesis by blast
  next
    case (Inr u)
    with Cons.prems one have "processMessages en sso tok rest w1 = (r, w')" by simp
    from Cons.IH[OF this] obtain e2 where
      b: "trace w' = trace w1 @ e2" "hb_ok True e2" "fresh True e2" by blast
    have "trace w' = trace w @ (e1 @ e2)" using a b by simp
    moreover have "hb_ok True (e1 @ e2)" using a b by (intro hb_ok_append) simp_all
    moreover have "fresh True (e1 @ e2)" using a b by (simp add: fresh_append)
    ultimately show ?thesis by blast
  qed
qed

subsection \<open>The whole cycle\<close>

lemma markers_cycle_prefix [simp]: "markers (cycle_prefix en w) = []"
  by (simp add: cycle_prefix_def markers_def)

lemma processQueue_trace:
  "\<exists>evs. trace (snd (processQueue en w)) = trace w @ cycle_prefix en w @ evs \<and> hb_ok True evs"
proof (cases "find (\<lambda>s. type_s s = ''telegram:bot'') (settings w)")
  case None
  then show ?thesis
    by (simp add: processQueue_unfold cycle_prefix_def)
next
  case (Some b)
  let ?w5 = "emit (ConsoleLog (PendingMessages (length (pending_messages w))))
                 (emit MessageFindAllPending
                   (emit (SettingFindOne ''tradingview:screenshot'')
                     (emit (SettingFindOne ''telegram:bot'') (updateWorkerStatus en False w))))"
  let ?sso = "find (\<lambda>s. type_s s = ''tradingview:screenshot'') (settings w)"
  obtain r w' where run: "processMessages en ?sso (data_s b) (pending_messages w) ?w5 = (r, w')"
    by (cases "processMessages en ?sso (data_s b) (pending_messages w) ?w5")
  from processMessages_hb[OF run] obtain evs where
    "trace w' = trace ?w5 @ evs" "hb_ok True evs" by blast
  with Some run show ?thesis
    by (simp add: processQueue_unfold cycle_prefix_def)
qed

lemma cycle_events_append:
  "trace (snd (processQueue en w)) = trace w @ cycle_events en w"
  using processQueue_trace[of en w] by (auto simp: cycle_events_def)

lemma processQueue_full:
  assumes bot: "find (\<lambda>s. type_s s = ''telegram:bot'') (settings w) = Some b"
    and ss: "find (\<lambda>s. type_s s = ''tradingview:screenshot'') (settings w) = Some ss"
    and dist: "distinct (map id_m (pending_messages w))"
  shows "fst (processQueue en w) = Inr () \<and>
         markers (cycle_events en w) = map id_m (pending_messages w) \<and>
         (\<forall>m\<in>set (pending_messages w).
            message_trace ss m (message_events (id_m m) (cycle_events en w))) \<and>
         messages (snd (processQueue en w)) = map (settle (cycle_events en w)) (messages w)"
proof -
  let ?w5 = "emit (ConsoleLog (PendingMessages (length (pending_messages w))))
                 (emit MessageFindAllPending
                   (emit (SettingFindOne ''tradingview:screenshot'')
                     (emit (SettingFindOne ''telegram:bot'') (updateWorkerStatus en False w))))"
  obtain r w' where run: "processMessages en (Some ss) (data_s b) (pending_messages w) ?w5 = (r, w')"
    by (cases "processMessages en (Some ss) (data_s b) (pending_messages w) ?w5")
  then have pq: "processQueue en w = (r, w')"
    using bot ss by (simp add: processQueue_unfold)
  from processMessages_Some[OF run dist] obtain evs where
    e: "r = Inr ()" "trace w' = trace ?w5 @ evs" "markers evs = map id_m (pending_messages w)"
       "\<forall>m\<in>set (pending_messages w). message_trace ss m (message_events (id_m m) evs)"
       "messages w' = map (settle evs) (messages ?w5)"
    by blast
  have cyc: "cycle_events en w = cycle_prefix en w @ evs"
    using e(2) pq by (simp add: cycle_events_def cycle_prefix_def)
  have me: "message_events i (cycle_events en w) = message_events i evs" for i
    by (simp add: cyc message_events_def after_marker_skip)
  have "settle (cycle_events en w) = settle evs"
    by (rule ext) (simp add: settle_def last_result_def me, simp add: cyc)
  with e pq me cyc show ?thesis by simp
qed

lemma sent_to_channel: "sent_to ss dat ch c \<Longrightarrow> channel_of c = ch"
  by (auto simp: sent_to_def channel_of_def split: tg_call.splits)

lemma sent_to_channels:
  "list_all2 (\<lambda>d ch. sent_to ss dat ch (fst d)) ds chs \<Longrightarrow> map (channel_of \<circ> fst) ds = chs"
  by (induction ds chs rule: list_all2_induct) (simp_all add: sent_to_channel)

lemma filter_own_row:
  "distinct (map f xs) \<Longrightarrow> m \<in> set xs \<Longrightarrow> filter (\<lambda>x. f x = f m) xs = [m]"
proof (induction xs)
  case Nil
  then show ?case by simp
next
  case (Cons x xs)
  show ?case
  proof (cases "x = m")
    case True
    with Cons.prems have "\<forall>y\<in>set xs. f y \<noteq> f m" by (auto simp: image_iff)
    then have "filter (\<lambda>x. f x = f m) xs = []" by (simp add: filter_empty_conv)
    with True show ?thesis by simp
  next
    case False
    with Cons.prems have "m \<in> set xs" "f x \<noteq> f m" by (auto simp: image_iff)
    with Cons show ?thesis by simp
  qed
qed

lemma id_settle [simp]: "id_m (settle evs x) = id_m x"
  by (simp add: settle_def)

subsection \<open>Splitting\<close>

lemma js_split_hd: "js_split c s = takeWhile (\<lambda>x. x \<noteq> c) s # tl (js_split c s)"
  by (induction s) (auto split: list.splits)

lemma js_split_no_sep: "c \<notin> set s \<Longrightarrow> js_split c s = [s]"
  by (induction s) auto

lemma js_split_at_sep: "c \<notin> set a \<Longrightarrow> js_split c (a @ c # b) = a # js_split c b"
  by (induction a) auto

subsection \<open>Channels of a cycle, a missing screenshot row, and the loop\<close>


lemma processMessages_None:
  "ms \<noteq> [] \<Longrightarrow>
   processMessages en None tok ms w =
     (Inl (null_read ''enabled''),
      emit (ConsoleLog (ProcessingMessageID (id_m (hd ms)))) w)"
proof (cases ms)
  case Nil
  assume "ms \<noteq> []"
  with Nil show ?thesis by simp
next
  case (Cons m rest)
  obtain ch chs where "js_split CHR '','' (channels_m m) = ch # chs"
    by (cases "js_split CHR '','' (channels_m m)") simp_all
  with Cons show ?thesis
    by (simp add: processMessage_def processChannel_def)
qed

lemma loop_iteration_trace:
  "\<exists>l. trace (loop_iteration en w) =
     trace w @ [ConsoleLog CheckingQueue] @ cycle_events en (emit (ConsoleLog CheckingQueue) w) @ l @
       [ConsoleLog (RecheckQueueIn 1), Sleep 1000] \<and>
     l = (case fst (processQueue en (emit (ConsoleLog CheckingQueue) w)) of
            Inl err \<Rightarrow> [ConsoleLog (ProcessQueueFAILED err)] | Inr _ \<Rightarrow> [])"
proof -
  let ?w1 = "emit (ConsoleLog CheckingQueue) w"
  obtain r w' where pq: "processQueue en ?w1 = (r, w')" by (cases "processQueue en ?w1")
  have "trace w' = trace ?w1 @ cycle_events en ?w1"
    using cycle_events_append[of en ?w1] pq by simp
  with pq show ?thesis
    by (cases r) (simp_all add: loop_iteration_def Let_def)
qed

lemma no_sleep_in_cycle: "Sleep k \<notin> set (cycle_events en w)"
proof -
  from processQueue_trace[of en w] obtain evs where
    "cycle_events en w = cycle_prefix en w @ evs" "hb_ok True evs"
    by (auto simp: cycle_events_def)
  then show ?thesis
    using hb_ok_no_sleep[of True evs k] by (simp add: cycle_prefix_def)
qed

lemma loop_iteration_sleeps:
  "count_list (trace (loop_iteration en w)) (Sleep 1000) = count_list (trace w) (Sleep 1000) + 1"
proof -
  from loop_iteration_trace[of en w] obtain l where
    t: "trace (loop_iteration en w) =
     trace w @ [ConsoleLog CheckingQueue] @ cycle_events en (emit (ConsoleLog CheckingQueue) w) @ l @
       [ConsoleLog (RecheckQueueIn 1), Sleep 1000]"
    and l: "l = (case fst (processQueue en (emit (ConsoleLog CheckingQueue) w)) of
            Inl err \<Rightarrow> [ConsoleLog (ProcessQueueFAILED err)] | Inr _ \<Rightarrow> [])"
    by blast
  have "count_list l (Sleep 1000) = 0"
    by (simp add: l split: sum.splits)
  moreover have "count_list (cycle_events en (emit (ConsoleLog CheckingQueue) w)) (Sleep 1000) = 0"
    using no_sleep_in_cycle by (simp add: count_list_0_iff)
  ultimately show ?thesis by (simp add: t)
qed

lemma worker_loop_sleeps:
  "count_list (trace (worker_loop en n w)) (Sleep 1000) = count_list (trace w) (Sleep 1000) + n"
  by (induction n arbitrary: w) (simp_all add: loop_iteration_sleeps)

lemma updateWorkerStatus_settings:
  "settings (updateWorkerStatus en False w) =
     map (\<lambda>s. if type_s s = ''worker'' then s\<lparr>data_s := env_now en (trace w)\<rparr> else s)
       (settings w)"
  by (simp add: updateWorkerStatus_def Let_def)

lemma find_append_None: "find P xs = None \<Longrightarrow> find P (xs @ ys) = find P ys"
  by (induction xs) (auto split: if_splits)

lemma find_append_Some: "find P xs = Some c \<Longrightarrow> find P (xs @ ys) = Some c"
  by (induction xs) auto

section \<open>Runs of the examples\<close>

text \<open>The cycles of the examples, evaluated once by rewriting.\<close>


lemmas eval_defs =
  processQueue_unfold pending_messages_def
  world_example_def world_no_screenshot_def world_no_bot_def
  env_ok_def env_flaky_def msg_aapl_def
  row_worker_def row_bot_def row_screenshot_def row_credentials_def
  processMessage_def processChannel_def screenshot_step_def dispatch_step_def screenshot_def
  bind_p_def page_do_def page_evaluate_string_def
  symbol_of_def symbol_url_def js_or_def failure_of_def JSON_stringify_def channel_of_def
  update_row_def null_read_def Let_def updateWorkerStatus_def emit_def Message_update_def

lemma run_flaky:
  "processQueue env_flaky world_example =
    (Inr (),
     \<lparr>settings =
        [\<lparr>type_s = ''worker'', data_s = ''2021-03-01T09:30:00.000Z'', enabled_s = True\<rparr>,
         row_bot, row_screenshot, row_credentials],
      messages = [msg_aapl\<lparr>status_m := Failed, log_m := Some ''{code:403}''\<rparr>],
      trace =
        [Heartbeat ''2021-03-01T09:30:00.000Z'',
         SettingFindOne ''telegram:bot'',
         SettingFindOne ''tradingview:screenshot'', MessageFindAllPending,
         ConsoleLog (PendingMessages 1), ConsoleLog (ProcessingMessageID 1),
         ScreenshotCall ''NASDAQ:AAPL'' ''1D'',
         Page (Goto ''https://www.tradingview.com/symbols/AAPL/?exchange=NASDAQ'')
           (Some (ExternalError ''{name:TimeoutError}'')),
         MessageUpdate 1 None ''{name:TimeoutError}'',
         ConsoleLog (ScreenshotFAILED ''NASDAQ:AAPL''),
         Heartbeat ''2021-03-01T09:30:00.000Z'',
         Telegram ''bot-token''
           (SendPhoto ''chan1'' (Some placeholder_image) ''NASDAQ:AAPL Buy now'')
           (Inr ''{message_id:7}''),
         MessageUpdate 1 (Some Success) ''{message_id:7}'',
         ConsoleLog (DispatchSUCCESS ''chan1''),
         Heartbeat ''2021-03-01T09:30:00.000Z'',
         ScreenshotCall ''NASDAQ:AAPL'' ''1D'',
         Page (Goto ''https://www.tradingview.com/symbols/AAPL/?exchange=NASDAQ'')
           (Some (ExternalError ''{name:TimeoutError}'')),
         MessageUpdate 1 None ''{name:TimeoutError}'',
         ConsoleLog (ScreenshotFAILED ''NASDAQ:AAPL''),
         Heartbeat ''2021-03-01T09:30:00.000Z'',
         Telegram ''bot-token''
           (SendPhoto ''chan2'' (Some placeholder_image) ''NASDAQ:AAPL Buy now'')
           (Inl (ExternalError ''{code:403}'')),
         MessageUpdate 1 (Some Failed) ''{code:403}'',
         ConsoleLog (DispatchFAILED (ExternalError ''{code:403}'')),
         Heartbeat ''2021-03-01T09:30:00.000Z'']\<rparr>)"
  by (simp add: eval_defs)

lemma run_ok_captions:
  "map (caption_of \<circ> fst) (dispatches (cycle_events env_ok world_example)) =
     [Some ''NASDAQ:AAPL Buy now'', Some ''NASDAQ:AAPL Buy now'']"
  by (simp add: cycle_events_def eval_defs dispatches_def caption_of_def)

lemmas row_defs =
  world_example_def world_no_screenshot_def world_no_bot_def
  msg_aapl_def row_worker_def row_bot_def row_screenshot_def row_credentials_def

lemma trace_examples [simp]:
  "trace world_example = []" "trace world_no_screenshot = []" "trace world_no_bot = []"
  by (simp_all add: row_defs)

lemma events_flaky:
  "cycle_events env_flaky world_example =
     [Heartbeat ''2021-03-01T09:30:00.000Z'',
      SettingFindOne ''telegram:bot'',
      SettingFindOne ''tradingview:screenshot'', MessageFindAllPending,
      ConsoleLog (PendingMessages 1), ConsoleLog (ProcessingMessageID 1)] @
     ScreenshotCall ''NASDAQ:AAPL'' ''1D'' #
     [Page (Goto ''https://www.tradingview.com/symbols/AAPL/?exchange=NASDAQ'')
        (Some (ExternalError ''{name:TimeoutError}'')),
      MessageUpdate 1 None ''{name:TimeoutError}'',
      ConsoleLog (ScreenshotFAILED ''NASDAQ:AAPL''),
      Heartbeat ''2021-03-01T09:30:00.000Z'',
      Telegram ''bot-token''
        (SendPhoto ''chan1'' (Some placeholder_image) ''NASDAQ:AAPL Buy now'')
        (Inr ''{message_id:7}''),
      MessageUpdate 1 (Some Success) ''{message_id:7}'',
      ConsoleLog (DispatchSUCCESS ''chan1''),
      Heartbeat ''2021-03-01T09:30:00.000Z'',
      ScreenshotCall ''NASDAQ:AAPL'' ''1D'',
      Page (Goto ''https://www.tradingview.com/symbols/AAPL/?exchange=NASDAQ'')
        (Some (ExternalError ''{name:TimeoutError}'')),
      MessageUpdate 1 None ''{name:TimeoutError}'',
      ConsoleLog (ScreenshotFAILED ''NASDAQ:AAPL''),
      Heartbeat ''2021-03-01T09:30:00.000Z''] @
     Telegram ''bot-token''
       (SendPhoto ''chan2'' (Some placeholder_image) ''NASDAQ:AAPL Buy now'')
       (Inl (ExternalError ''{code:403}'')) #
     [MessageUpdate 1 (Some Failed) ''{code:403}'',
      ConsoleLog (DispatchFAILED (ExternalError ''{code:403}'')),
      Heartbeat ''2021-03-01T09:30:00.000Z'']"
  by (simp add: cycle_events_def run_flaky)

lemma screenshot_flaky:
  "screenshot env_flaky ''NASDAQ:AAPL'' ''1D'' world_example =
     (Inl (ExternalError ''{name:TimeoutError}''),
      world_example\<lparr>trace :=
        [ScreenshotCall ''NASDAQ:AAPL'' ''1D'',
         Page (Goto ''https://www.tradingview.com/symbols/AAPL/?exchange=NASDAQ'')
           (Some (ExternalError ''{name:TimeoutError}''))]\<rparr>)"
  by (simp add: screenshot_def bind_p_def page_do_def env_flaky_def emit_def symbol_url_def Let_def)

lemma login_sequence_flaky:
  "fst (login_sequence env_flaky row_credentials
          (emit (SettingFindOne ''tradingview:credentials'') world_example)) =
     Inl (ExternalError ''{name:TimeoutError}'')"
  by (simp add: login_sequence_def bind_p_def page_do_def env_flaky_def Let_def)

section \<open>The claims\<close>

text \<open>
  Claim C1. In a cycle that finds both configuration rows, a pending message with \<open>n\<close>
  channels gets exactly \<open>n\<close> sends, one per channel and in the order of the channels,
  and \<open>n\<close> screenshot calls when screenshots are enabled, none when they are not (so at
  most \<open>n\<close>). After the cycle the status of its row is the outcome of the last of these
  sends, whatever the sends to the earlier channels gave. The ids of the rows are taken
  to be distinct, as a primary key is; the events of a message are those between the
  line that prints its id and the next such line.
\<close>

theorem dispatches_per_message:
  assumes "find (\<lambda>s. type_s s = ''telegram:bot'') (settings w) = Some b"
    and "find (\<lambda>s. type_s s = ''tradingview:screenshot'') (settings w) = Some ss"
    and "distinct (map id_m (messages w))"
    and "m \<in> set (messages w)" and "status_m m = Pending"
  shows "let evs = message_events (id_m m) (cycle_events en w);
             n = length (js_split CHR '','' (channels_m m))
         in fst (processQueue en w) = Inr () \<and>
            length (dispatches evs) = n \<and>
            map (channel_of \<circ> fst) (dispatches evs) = js_split CHR '','' (channels_m m) \<and>
            length (screenshot_calls evs) = (if enabled_s ss then n else 0) \<and>
            length (screenshot_calls evs) \<le> n \<and>
            map status_m (filter (\<lambda>x. id_m x = id_m m) (messages (snd (processQueue en w)))) =
              [outcome (snd (last (dispatches evs)))]"
proof -
  let ?cyc = "cycle_events en w"
  let ?evs = "message_events (id_m m) ?cyc"
  let ?chs = "js_split CHR '','' (channels_m m)"
  have dist: "distinct (map id_m (pending_messages w))"
    using assms(3) by (simp add: pending_messages_def distinct_map_filter)
  have pend: "m \<in> set (pending_messages w)"
    using assms(4,5) by (simp add: pending_messages_def)
  from processQueue_full[OF assms(1,2) dist, of en] pend have
    f: "fst (processQueue en w) = Inr ()"
       "markers ?cyc = map id_m (pending_messages w)"
       "message_trace ss m ?evs"
       "messages (snd (processQueue en w)) = map (settle ?cyc) (messages w)"
    by auto
  from f(3) have
    sent: "list_all2 (\<lambda>d ch. sent_to ss (data_m m) ch (fst d)) (dispatches ?evs) ?chs"
    and shots: "screenshot_calls ?evs =
        (if enabled_s ss
         then replicate (length ?chs) (symbol_of (data_m m), js_or (timeframe_m m) (data_s ss))
         else [])"
    by (simp_all add: message_trace_def)
  have len: "length (dispatches ?evs) = length ?chs"
    using sent by (rule list_all2_lengthD)
  have chans: "map (channel_of \<circ> fst) (dispatches ?evs) = ?chs"
    using sent by (rule sent_to_channels)
  have "filter (\<lambda>x. id_m x = id_m m) (map (settle ?cyc) (messages w)) =
        map (settle ?cyc) (filter (\<lambda>x. id_m x = id_m m) (messages w))"
    by (simp add: filter_map comp_def)
  also have "\<dots> = [settle ?cyc m]"
    using filter_own_row[OF assms(3,4)] by simp
  finally have "map status_m (filter (\<lambda>x. id_m x = id_m m) (messages (snd (processQueue en w)))) =
        [status_m (settle ?cyc m)]"
    by (simp add: f(4))
  moreover have "status_m (settle ?cyc m) = outcome (snd (last (dispatches ?evs)))"
    using pend by (simp add: settle_def f(2) last_result_def)
  ultimately show ?thesis
    using f(1) len chans shots by (simp add: Let_def)
qed

theorem dispatches_per_message_witness:
  "find (\<lambda>s. type_s s = ''telegram:bot'') (settings world_example) = Some row_bot \<and>
   find (\<lambda>s. type_s s = ''tradingview:screenshot'') (settings world_example) = Some row_screenshot \<and>
   distinct (map id_m (messages world_example)) \<and>
   msg_aapl \<in> set (messages world_example) \<and> status_m msg_aapl = Pending \<and>
   fst (processQueue env_flaky world_example) = Inr () \<and>
   length (dispatches (message_events 1 (cycle_events env_flaky world_example))) = 2 \<and>
   map (channel_of \<circ> fst) (dispatches (message_events 1 (cycle_events env_flaky world_example))) =
     [''chan1'', ''chan2''] \<and>
   length (screenshot_calls (message_events 1 (cycle_events env_flaky world_example))) = 2 \<and>
   map (outcome \<circ> snd) (dispatches (message_events 1 (cycle_events env_flaky world_example))) =
     [Success, Failed] \<and>
   map status_m (filter (\<lambda>x. id_m x = 1) (messages (snd (processQueue env_flaky world_example)))) =
     [Failed]"
proof -
  let ?evs = "message_events 1 (cycle_events env_flaky world_example)"
  have h: "find (\<lambda>s. type_s s = ''telegram:bot'') (settings world_example) = Some row_bot"
    "find (\<lambda>s. type_s s = ''tradingview:screenshot'') (settings world_example) = Some row_screenshot"
    "distinct (map id_m (messages world_example))"
    "msg_aapl \<in> set (messages world_example)" "status_m msg_aapl = Pending"
    by (simp_all add: row_defs)
  have i: "id_m msg_aapl = 1" "js_split CHR '','' (channels_m msg_aapl) = [''chan1'', ''chan2'']"
    "enabled_s row_screenshot"
    by (simp_all add: row_defs)
  from dispatches_per_message[OF h, of env_flaky] have t:
    "fst (processQueue env_flaky world_example) = Inr ()"
    "length (dispatches ?evs) = 2"
    "map (channel_of \<circ> fst) (dispatches ?evs) = [''chan1'', ''chan2'']"
    "length (screenshot_calls ?evs) = 2"
    "map status_m (filter (\<lambda>x. id_m x = 1) (messages (snd (processQueue env_flaky world_example)))) =
       [outcome (snd (last (dispatches ?evs)))]"
    by (simp_all add: Let_def i)
  have d: "map (outcome \<circ> snd) (dispatches ?evs) = [Success, Failed]"
    by (simp add: events_flaky message_events_def is_marker_def dispatches_def outcome_def)
  then have "outcome (snd (last (dispatches ?evs))) = Failed"
    using t(2) by (cases "dispatches ?evs" rule: rev_cases) auto
  with h t d show ?thesis by simp
qed

text \<open>
  Claim C2, as amended. The worker has no check of its own for a missing row: the error
  is what reading a property of \<open>null\<close> throws. Without the \<open>telegram:bot\<close> row the
  cycle always throws (line 96). Without the \<open>tradingview:screenshot\<close> row it throws
  when a message is pending (line 114, at the first channel of the first message), and
  it returns normally when nothing is pending, since the row is only read inside the
  loops. When the cycle throws, the turn of the top-level loop prints the error, prints
  the recheck line and sleeps; and \<open>n\<close> turns of the loop always end in \<open>n\<close> sleeps,
  so no turn leaves the loop.
\<close>

theorem missing_configuration_row:
  "(find (\<lambda>s. type_s s = ''telegram:bot'') (settings w) = None \<longrightarrow>
      fst (processQueue en w) =
        Inl (null_read ''data'')) \<and>
   (find (\<lambda>s. type_s s = ''telegram:bot'') (settings w) = Some b \<and>
    find (\<lambda>s. type_s s = ''tradingview:screenshot'') (settings w) = None \<and>
    pending_messages w \<noteq> [] \<longrightarrow>
      fst (processQueue en w) =
        Inl (null_read ''enabled'')) \<and>
   (find (\<lambda>s. type_s s = ''telegram:bot'') (settings w) = Some b \<and>
    find (\<lambda>s. type_s s = ''tradingview:screenshot'') (settings w) = None \<and>
    pending_messages w = [] \<longrightarrow>
      fst (processQueue en w) = Inr ()) \<and>
   (fst (processQueue en (emit (ConsoleLog CheckingQueue) w)) = Inl err \<longrightarrow>
      trace (loop_iteration en w) =
        trace w @ [ConsoleLog CheckingQueue] @
        cycle_events en (emit (ConsoleLog CheckingQueue) w) @
        [ConsoleLog (ProcessQueueFAILED err), ConsoleLog (RecheckQueueIn 1), Sleep 1000]) \<and>
   count_list (trace (worker_loop en n w)) (Sleep 1000) = count_list (trace w) (Sleep 1000) + n"
proof (intro conjI impI)
  assume "find (\<lambda>s. type_s s = ''telegram:bot'') (settings w) = None"
  then show "fst (processQueue en w) =
      Inl (null_read ''data'')"
    by (simp add: processQueue_unfold)
next
  assume "find (\<lambda>s. type_s s = ''telegram:bot'') (settings w) = Some b \<and>
    find (\<lambda>s. type_s s = ''tradingview:screenshot'') (settings w) = None \<and>
    pending_messages w \<noteq> []"
  then show "fst (processQueue en w) =
      Inl (null_read ''enabled'')"
    by (simp add: processQueue_unfold processMessages_None)
next
  assume "find (\<lambda>s. type_s s = ''telegram:bot'') (settings w) = Some b \<and>
    find (\<lambda>s. type_s s = ''tradingview:screenshot'') (settings w) = None \<and>
    pending_messages w = []"
  then show "fst (processQueue en w) = Inr ()"
    by (simp add: processQueue_unfold)
next
  assume "fst (processQueue en (emit (ConsoleLog CheckingQueue) w)) = Inl err"
  with loop_iteration_trace[of en w]
  show "trace (loop_iteration en w) =
        trace w @ [ConsoleLog CheckingQueue] @
        cycle_events en (emit (ConsoleLog CheckingQueue) w) @
        [ConsoleLog (ProcessQueueFAILED err), ConsoleLog (RecheckQueueIn 1), Sleep 1000]"
    by auto
next
  show "count_list (trace (worker_loop en n w)) (Sleep 1000) = count_list (trace w) (Sleep 1000) + n"
    by (rule worker_loop_sleeps)
qed

text \<open>The claim as stated fails: without the screenshot row and with nothing pending,
  the cycle returns normally.\<close>

theorem missing_configuration_row_counterexample:
  "find (\<lambda>s. type_s s = ''tradingview:screenshot'') (settings world_idle) = None \<and>
   fst (processQueue env_ok world_idle) = Inr ()"
  by (simp add: eval_defs world_idle_def)

theorem missing_configuration_row_witness:
  "find (\<lambda>s. type_s s = ''telegram:bot'') (settings world_no_bot) = None \<and>
   fst (processQueue env_ok world_no_bot) = Inl (null_read ''data'') \<and>
   find (\<lambda>s. type_s s = ''telegram:bot'') (settings world_no_screenshot) = Some row_bot \<and>
   find (\<lambda>s. type_s s = ''tradingview:screenshot'') (settings world_no_screenshot) = None \<and>
   pending_messages world_no_screenshot \<noteq> [] \<and>
   fst (processQueue env_ok world_no_screenshot) = Inl (null_read ''enabled'') \<and>
   pending_messages world_idle = [] \<and>
   fst (processQueue env_flaky world_idle) = Inr () \<and>
   trace (loop_iteration env_ok world_no_bot) =
     [ConsoleLog CheckingQueue] @ cycle_events env_ok (emit (ConsoleLog CheckingQueue) world_no_bot) @
     [ConsoleLog (ProcessQueueFAILED (null_read ''data'')), ConsoleLog (RecheckQueueIn 1), Sleep 1000] \<and>
   count_list (trace (worker_loop env_ok 3 world_no_bot)) (Sleep 1000) = 3"
proof -
  have nb: "find (\<lambda>s. type_s s = ''telegram:bot'') (settings world_no_bot) = None"
    by (simp add: row_defs)
  have ns: "find (\<lambda>s. type_s s = ''telegram:bot'') (settings world_no_screenshot) = Some row_bot"
    "find (\<lambda>s. type_s s = ''tradingview:screenshot'') (settings world_no_screenshot) = None"
    "pending_messages world_no_screenshot \<noteq> []"
    by (simp_all add: row_defs pending_messages_def)
  have idle: "find (\<lambda>s. type_s s = ''telegram:bot'') (settings world_idle) = Some row_bot"
    "find (\<lambda>s. type_s s = ''tradingview:screenshot'') (settings world_idle) = None"
    "pending_messages world_idle = []"
    by (simp_all add: row_defs world_idle_def pending_messages_def)
  have a: "fst (processQueue env_ok world_no_bot) = Inl (null_read ''data'')"
    using missing_configuration_row[of world_no_bot env_ok] nb by blast
  have b: "fst (processQueue env_ok world_no_screenshot) = Inl (null_read ''enabled'')"
    using missing_configuration_row[of world_no_screenshot env_ok row_bot] ns by blast
  have c: "fst (processQueue env_flaky world_idle) = Inr ()"
    using missing_configuration_row[of world_idle env_flaky row_bot] idle by blast
  have nb': "find (\<lambda>s. type_s s = ''telegram:bot'')
      (settings (emit (ConsoleLog CheckingQueue) world_no_bot)) = None"
    using nb by simp
  have "fst (processQueue env_ok (emit (ConsoleLog CheckingQueue) world_no_bot)) =
      Inl (null_read ''data'')"
    using missing_configuration_row[of "emit (ConsoleLog CheckingQueue) world_no_bot" env_ok] nb'
    by blast
  then have d: "trace (loop_iteration env_ok world_no_bot) =
     trace world_no_bot @ [ConsoleLog CheckingQueue] @
     cycle_events env_ok (emit (ConsoleLog CheckingQueue) world_no_bot) @
     [ConsoleLog (ProcessQueueFAILED (null_read ''data'')), ConsoleLog (RecheckQueueIn 1), Sleep 1000]"
    using missing_configuration_row[of world_no_bot env_ok _ "null_read ''data''"] by blast
  have e: "count_list (trace (worker_loop env_ok 3 world_no_bot)) (Sleep 1000) =
      count_list (trace world_no_bot) (Sleep 1000) + 3"
    using missing_configuration_row[of world_no_bot env_ok _ _ 3] by blast
  from nb ns idle(3) a b c d e show ?thesis by simp
qed

text \<open>
  Claim C3, as amended. With screenshots enabled, each send of a pending message is a
  photo to one of its channels, in order, whose caption is the whole data of the message
  (line 140 passes \<open>data\<close>), not the part after the symbol.
\<close>

theorem photo_caption_is_whole_data:
  assumes "find (\<lambda>s. type_s s = ''telegram:bot'') (settings w) = Some b"
    and "find (\<lambda>s. type_s s = ''tradingview:screenshot'') (settings w) = Some ss"
    and "distinct (map id_m (messages w))"
    and "m \<in> set (messages w)" and "status_m m = Pending"
    and "enabled_s ss"
  shows "list_all2 (\<lambda>d ch. \<exists>img. fst d = SendPhoto ch (Some img) (data_m m))
           (dispatches (message_events (id_m m) (cycle_events en w)))
           (js_split CHR '','' (channels_m m))"
proof -
  have dist: "distinct (map id_m (pending_messages w))"
    using assms(3) by (simp add: pending_messages_def distinct_map_filter)
  have pend: "m \<in> set (pending_messages w)"
    using assms(4,5) by (simp add: pending_messages_def)
  from processQueue_full[OF assms(1,2) dist, of en] pend have
    "message_trace ss m (message_events (id_m m) (cycle_events en w))"
    by auto
  then have "list_all2 (\<lambda>d ch. sent_to ss (data_m m) ch (fst d))
           (dispatches (message_events (id_m m) (cycle_events en w)))
           (js_split CHR '','' (channels_m m))"
    by (simp add: message_trace_def)
  then show ?thesis
  proof (rule list_all2_mono)
    fix d ch
    assume "sent_to ss (data_m m) ch (fst d)"
    with assms(6) show "\<exists>img. fst d = SendPhoto ch (Some img) (data_m m)"
      by (auto simp: sent_to_def split: tg_call.splits)
  qed
qed

text \<open>The claim as stated fails on the scenario of the specification: both captions
  are the whole data, while the remainder after the symbol is \<open>Buy now\<close>.\<close>

theorem photo_caption_is_whole_data_counterexample:
  "enabled_s row_screenshot \<and>
   map (caption_of \<circ> fst) (dispatches (cycle_events env_ok world_example)) =
     [Some ''NASDAQ:AAPL Buy now'', Some ''NASDAQ:AAPL Buy now''] \<and>
   caption_after_symbol ''NASDAQ:AAPL Buy now'' = ''Buy now''"
  by (simp add: run_ok_captions row_screenshot_def caption_after_symbol_def is_whitespace_def)

theorem photo_caption_is_whole_data_witness:
  "find (\<lambda>s. type_s s = ''telegram:bot'') (settings world_example) = Some row_bot \<and>
   find (\<lambda>s. type_s s = ''tradingview:screenshot'') (settings world_example) = Some row_screenshot \<and>
   distinct (map id_m (messages world_example)) \<and>
   msg_aapl \<in> set (messages world_example) \<and> status_m msg_aapl = Pending \<and>
   enabled_s row_screenshot \<and>
   list_all2 (\<lambda>d ch. \<exists>img. fst d = SendPhoto ch (Some img) ''NASDAQ:AAPL Buy now'')
     (dispatches (message_events 1 (cycle_events env_flaky world_example)))
     [''chan1'', ''chan2'']"
proof -
  have h: "find (\<lambda>s. type_s s = ''telegram:bot'') (settings world_example) = Some row_bot"
    "find (\<lambda>s. type_s s = ''tradingview:screenshot'') (settings world_example) = Some row_screenshot"
    "distinct (map id_m (messages world_example))"
    "msg_aapl \<in> set (messages world_example)" "status_m msg_aapl = Pending"
    "enabled_s row_screenshot"
    by (simp_all add: row_defs)
  have i: "id_m msg_aapl = 1" "js_split CHR '','' (channels_m msg_aapl) = [''chan1'', ''chan2'']"
    "data_m msg_aapl = ''NASDAQ:AAPL Buy now''"
    by (simp_all add: row_defs)
  from photo_caption_is_whole_data[OF h, of env_flaky] h show ?thesis
    by (simp only: i simp_thms)
qed

text \<open>
  Claim C4. When the screenshot of a channel fails with \<open>err\<close>, the next call is the
  update that writes the serialised error to the log of the row, and only the log: every
  status stays as it was. The image becomes the placeholder, the channel is processed
  without an error, and the send that follows is a photo of the placeholder to that
  channel.
\<close>

theorem screenshot_failure_is_local:
  assumes "enabled_s ss"
    and "screenshot en sy (js_or tf (data_s ss)) w = (Inl err, w0)"
  shows "\<exists>w1 w2 t t' res.
           screenshot_step en ss i tf sy w = (Some placeholder_image, w1) \<and>
           trace w1 = trace w0 @ [MessageUpdate i None (JSON_stringify err),
                                  ConsoleLog (ScreenshotFAILED sy), Heartbeat t] \<and>
           messages w1 =
             map (\<lambda>m. if id_m m = i then m\<lparr>log_m := Some (JSON_stringify err)\<rparr> else m) (messages w) \<and>
           map status_m (messages w1) = map status_m (messages w) \<and>
           processChannel en (Some ss) tok i dat tf sy ch w = (Inr (), w2) \<and>
           trace w2 = trace w1 @ [Telegram tok (SendPhoto ch (Some placeholder_image) dat) res,
                                  MessageUpdate i (Some (outcome res)) (result_text res),
                                  ConsoleLog (dispatch_log ch res), Heartbeat t']"
proof -
  let ?w1 = "updateWorkerStatus en False
               (emit (ConsoleLog (ScreenshotFAILED sy))
                 (Message_update i None (JSON_stringify err) w0))"
  let ?w2 = "dispatch_step en ss tok i dat ch (Some placeholder_image) ?w1"
  from screenshot_trace[OF assms(2)] have m0: "messages w0 = messages w" by simp
  have step: "screenshot_step en ss i tf sy w = (Some placeholder_image, ?w1)"
    using assms by (simp add: screenshot_step_def)
  have tr1: "trace ?w1 = trace w0 @ [MessageUpdate i None (JSON_stringify err),
        ConsoleLog (ScreenshotFAILED sy),
        Heartbeat (env_now en (trace w0 @ [MessageUpdate i None (JSON_stringify err),
        ConsoleLog (ScreenshotFAILED sy)]))]"
    by simp
  have ms1: "messages ?w1 =
      map (\<lambda>m. if id_m m = i then m\<lparr>log_m := Some (JSON_stringify err)\<rparr> else m) (messages w)"
    by (simp add: m0 update_row_def)
  have st1: "map status_m (messages ?w1) = map status_m (messages w)"
    by (simp add: m0 comp_def update_row_def)
  from dispatch_step_shape[of en ?w1 tok ss ch "Some placeholder_image" dat i] obtain res where
    d: "trace ?w2 = trace ?w1 @ [Telegram tok (dispatch_call ss ch (Some placeholder_image) dat) res,
            MessageUpdate i (Some (outcome res)) (result_text res),
            ConsoleLog (dispatch_log ch res)]"
    by blast
  have ch: "processChannel en (Some ss) tok i dat tf sy ch w =
      (Inr (), updateWorkerStatus en False ?w2)"
    by (simp add: processChannel_def step)
  have tr2: "trace (updateWorkerStatus en False ?w2) =
      trace ?w1 @ [Telegram tok (SendPhoto ch (Some placeholder_image) dat) res,
            MessageUpdate i (Some (outcome res)) (result_text res),
            ConsoleLog (dispatch_log ch res), Heartbeat (env_now en (trace ?w2))]"
    using d assms(1) by (simp add: dispatch_call_def)
  from step tr1 ms1 st1 ch tr2 show ?thesis by blast
qed

theorem screenshot_failure_is_local_witness:
  "enabled_s row_screenshot \<and>
   fst (screenshot env_flaky ''NASDAQ:AAPL'' (js_or None (data_s row_screenshot)) world_example) =
     Inl (ExternalError ''{name:TimeoutError}'') \<and>
   fst (screenshot_step env_flaky row_screenshot 1 None ''NASDAQ:AAPL'' world_example) =
     Some placeholder_image \<and>
   map status_m
     (messages (snd (screenshot_step env_flaky row_screenshot 1 None ''NASDAQ:AAPL'' world_example))) =
     [Pending] \<and>
   map log_m
     (messages (snd (screenshot_step env_flaky row_screenshot 1 None ''NASDAQ:AAPL'' world_example))) =
     [Some ''{name:TimeoutError}''] \<and>
   fst (processChannel env_flaky (Some row_screenshot) ''bot-token'' 1 ''NASDAQ:AAPL Buy now'' None
          ''NASDAQ:AAPL'' ''chan1'' world_example) = Inr () \<and>
   map fst (dispatches (drop 2 (trace (snd
     (processChannel env_flaky (Some row_screenshot) ''bot-token'' 1 ''NASDAQ:AAPL Buy now'' None
        ''NASDAQ:AAPL'' ''chan1'' world_example))))) =
     [SendPhoto ''chan1'' (Some placeholder_image) ''NASDAQ:AAPL Buy now'']"
proof -
  let ?w0 = "world_example\<lparr>trace :=
        [ScreenshotCall ''NASDAQ:AAPL'' ''1D'',
         Page (Goto ''https://www.tradingview.com/symbols/AAPL/?exchange=NASDAQ'')
           (Some (ExternalError ''{name:TimeoutError}''))]\<rparr>"
  have en: "enabled_s row_screenshot" by (simp add: row_defs)
  have tf: "js_or None (data_s row_screenshot) = ''1D''" by (simp add: js_or_def row_defs)
  have run: "screenshot env_flaky ''NASDAQ:AAPL'' (js_or None (data_s row_screenshot)) world_example =
      (Inl (ExternalError ''{name:TimeoutError}''), ?w0)"
    by (simp only: tf screenshot_flaky)
  from screenshot_failure_is_local[OF en run, of 1 "''bot-token''" "''NASDAQ:AAPL Buy now''" "''chan1''"]
  obtain w1 w2 t t' res where
    r: "screenshot_step env_flaky row_screenshot 1 None ''NASDAQ:AAPL'' world_example =
          (Some placeholder_image, w1)"
       "trace w1 = trace ?w0 @ [MessageUpdate 1 None (JSON_stringify (ExternalError ''{name:TimeoutError}'')),
                                  ConsoleLog (ScreenshotFAILED ''NASDAQ:AAPL''), Heartbeat t]"
       "messages w1 =
          map (\<lambda>m. if id_m m = 1
                   then m\<lparr>log_m := Some (JSON_stringify (ExternalError ''{name:TimeoutError}''))\<rparr>
                   else m) (messages world_example)"
       "map status_m (messages w1) = map status_m (messages world_example)"
       "processChannel env_flaky (Some row_screenshot) ''bot-token'' 1 ''NASDAQ:AAPL Buy now'' None
          ''NASDAQ:AAPL'' ''chan1'' world_example = (Inr (), w2)"
       "trace w2 = trace w1 @
          [Telegram ''bot-token'' (SendPhoto ''chan1'' (Some placeholder_image) ''NASDAQ:AAPL Buy now'') res,
           MessageUpdate 1 (Some (outcome res)) (result_text res),
           ConsoleLog (dispatch_log ''chan1'' res), Heartbeat t']"
    by blast
  have ms: "messages world_example = [msg_aapl]" "id_m msg_aapl = 1" "status_m msg_aapl = Pending"
    by (simp_all add: row_defs)
  from r en run show ?thesis
    by (simp add: ms JSON_stringify_def dispatches_def)
qed



text \<open>
  Claim C6, as amended. Take a symbol with a colon, \<open>exchange\<close> the part before its
  first colon and the ticker the part between that colon and the next one (or the end).
  When both are non-empty, the page address is built from the ticker and carries the
  exchange as a query parameter. When either is empty (line 37 tests both), and for a
  symbol without a colon, it is the bare address of the whole symbol, with no exchange
  parameter.
\<close>

theorem symbol_url_by_guard:
  "(CHR '':'' \<notin> set exchange \<longrightarrow>
      symbol_url (exchange @ CHR '':'' # rest) =
        (if exchange \<noteq> [] \<and> takeWhile (\<lambda>c. c \<noteq> CHR '':'') rest \<noteq> []
         then ''https://www.tradingview.com/symbols/'' @ takeWhile (\<lambda>c. c \<noteq> CHR '':'') rest @
              ''/?exchange='' @ exchange
         else ''https://www.tradingview.com/symbols/'' @ (exchange @ CHR '':'' # rest) @ ''/'')) \<and>
   (CHR '':'' \<notin> set symbol \<longrightarrow>
      symbol_url symbol = ''https://www.tradingview.com/symbols/'' @ symbol @ ''/'')"
proof (intro conjI impI)
  assume ex: "CHR '':'' \<notin> set exchange"
  have "js_split CHR '':'' (exchange @ CHR '':'' # rest) =
      exchange # takeWhile (\<lambda>c. c \<noteq> CHR '':'') rest # tl (js_split CHR '':'' rest)"
    using js_split_at_sep[OF ex, of rest] js_split_hd[of "CHR '':''" rest] by simp
  then show "symbol_url (exchange @ CHR '':'' # rest) =
        (if exchange \<noteq> [] \<and> takeWhile (\<lambda>c. c \<noteq> CHR '':'') rest \<noteq> []
         then ''https://www.tradingview.com/symbols/'' @ takeWhile (\<lambda>c. c \<noteq> CHR '':'') rest @
              ''/?exchange='' @ exchange
         else ''https://www.tradingview.com/symbols/'' @ (exchange @ CHR '':'' # rest) @ ''/'')"
    by (simp add: symbol_url_def)
next
  assume "CHR '':'' \<notin> set symbol"
  then show "symbol_url symbol = ''https://www.tradingview.com/symbols/'' @ symbol @ ''/''"
    by (simp add: symbol_url_def js_split_no_sep)
qed

text \<open>The claim as stated fails: \<open>NASDAQ:\<close>, the symbol of the data
  \<open>NASDAQ: Buy now\<close>, has a non-empty exchange before a colon and gets the bare
  address.\<close>

theorem symbol_url_by_guard_counterexample:
  "symbol_of ''NASDAQ: Buy now'' = ''NASDAQ:'' \<and>
   symbol_url ''NASDAQ:'' = ''https://www.tradingview.com/symbols/NASDAQ:/''"
  by (simp add: symbol_of_def symbol_url_def)

theorem symbol_url_by_guard_witness:
  "CHR '':'' \<notin> set ''NASDAQ'' \<and>
   symbol_url ''NASDAQ:AAPL'' = ''https://www.tradingview.com/symbols/AAPL/?exchange=NASDAQ'' \<and>
   symbol_url ''NASDAQ:'' = ''https://www.tradingview.com/symbols/NASDAQ:/'' \<and>
   CHR '':'' \<notin> set ''AAPL'' \<and>
   symbol_url ''AAPL'' = ''https://www.tradingview.com/symbols/AAPL/''"
  using symbol_url_by_guard[of "''NASDAQ''" "''AAPL''" "''AAPL''"]
    symbol_url_by_guard[of "''NASDAQ''" "[]" "''AAPL''"]
  by simp

text \<open>
  Claim C7, as amended. In a cycle that finds both configuration rows, every screenshot
  call for a pending message is made with the part of its data before the first space
  character as the symbol, the whole data when it has no space (and no call is made
  when screenshots are disabled). Only the space separates: a tab does not, and data
  that starts with a space gives the empty symbol.
\<close>

theorem screenshot_symbol_before_first_space:
  assumes "find (\<lambda>s. type_s s = ''telegram:bot'') (settings w) = Some b"
    and "find (\<lambda>s. type_s s = ''tradingview:screenshot'') (settings w) = Some ss"
    and "distinct (map id_m (messages w))"
    and "m \<in> set (messages w)" and "status_m m = Pending"
  shows "symbol_of (data_m m) = takeWhile (\<lambda>c. c \<noteq> CHR '' '') (data_m m) \<and>
         screenshot_calls (message_events (id_m m) (cycle_events en w)) =
           (if enabled_s ss
            then replicate (length (js_split CHR '','' (channels_m m)))
                   (takeWhile (\<lambda>c. c \<noteq> CHR '' '') (data_m m),
                    js_or (timeframe_m m) (data_s ss))
            else [])"
proof -
  have sym: "symbol_of dat = takeWhile (\<lambda>c. c \<noteq> CHR '' '') dat" for dat
    unfolding symbol_of_def by (subst js_split_hd) simp
  have dist: "distinct (map id_m (pending_messages w))"
    using assms(3) by (simp add: pending_messages_def distinct_map_filter)
  have pend: "m \<in> set (pending_messages w)"
    using assms(4,5) by (simp add: pending_messages_def)
  from processQueue_full[OF assms(1,2) dist, of en] pend have
    "message_trace ss m (message_events (id_m m) (cycle_events en w))"
    by auto
  then show ?thesis
    by (simp add: message_trace_def sym)
qed

text \<open>The claim as stated fails: for data with a tab after the ticker the screenshot
  is called with the tab and the next word in the symbol, and for data with a leading
  space the symbol is empty; neither is the first whitespace-delimited token.\<close>

theorem screenshot_symbol_before_first_space_counterexample:
  "map fst (screenshot_calls (cycle_events env_flaky world_tab)) = [''AAPL'' @ [CHR 0x09] @ ''Buy''] \<and>
   first_whitespace_token (data_m msg_tab) = ''AAPL'' \<and>
   symbol_of '' AAPL Buy'' = [] \<and>
   first_whitespace_token '' AAPL Buy'' = ''AAPL''"
  by (simp add: cycle_events_def eval_defs world_tab_def msg_tab_def screenshot_calls_def
      first_whitespace_token_def is_whitespace_def)

theorem screenshot_symbol_before_first_space_witness:
  "find (\<lambda>s. type_s s = ''telegram:bot'') (settings world_example) = Some row_bot \<and>
   find (\<lambda>s. type_s s = ''tradingview:screenshot'') (settings world_example) = Some row_screenshot \<and>
   distinct (map id_m (messages world_example)) \<and>
   msg_aapl \<in> set (messages world_example) \<and> status_m msg_aapl = Pending \<and>
   symbol_of ''NASDAQ:AAPL Buy now'' = ''NASDAQ:AAPL'' \<and>
   screenshot_calls (message_events 1 (cycle_events env_flaky world_example)) =
     [(''NASDAQ:AAPL'', ''1D''), (''NASDAQ:AAPL'', ''1D'')]"
proof -
  have h: "find (\<lambda>s. type_s s = ''telegram:bot'') (settings world_example) = Some row_bot"
    "find (\<lambda>s. type_s s = ''tradingview:screenshot'') (settings world_example) = Some row_screenshot"
    "distinct (map id_m (messages world_example))"
    "msg_aapl \<in> set (messages world_example)" "status_m msg_aapl = Pending"
    by (simp_all add: row_defs)
  have i: "id_m msg_aapl = 1" "js_split CHR '','' (channels_m msg_aapl) = [''chan1'', ''chan2'']"
    "data_m msg_aapl = ''NASDAQ:AAPL Buy now''" "enabled_s row_screenshot"
    "js_or (timeframe_m msg_aapl) (data_s row_screenshot) = ''1D''"
    by (simp_all add: row_defs js_or_def)
  from screenshot_symbol_before_first_space[OF h, of env_flaky] h show ?thesis
    by (simp add: i)
qed

text \<open>
  Claim C8. Every cycle starts with a heartbeat, before the configuration rows and the
  queue are read. Before every screenshot call, the last call that went to the browser
  or to Telegram or was a heartbeat is a heartbeat; and after every send, the next such
  call is a heartbeat: between them are only calls to the tables and to the console.
\<close>

theorem heartbeat_order:
  "(\<exists>rest. cycle_events en w =
      Heartbeat (env_now en (trace w)) # SettingFindOne ''telegram:bot'' #
      SettingFindOne ''tradingview:screenshot'' # MessageFindAllPending # rest) \<and>
   (\<forall>pre s tf post. cycle_events en w = pre @ ScreenshotCall s tf # post \<longrightarrow> touched_before pre) \<and>
   (\<forall>pre tok c r post. cycle_events en w = pre @ Telegram tok c r # post \<longrightarrow> touched_after post)"
proof -
  from processQueue_trace[of en w] obtain evs where
    cyc: "cycle_events en w = cycle_prefix en w @ evs" and ok: "hb_ok True evs"
    by (auto simp: cycle_events_def)
  have all: "hb_ok False (cycle_events en w)"
    using ok by (simp add: cyc cycle_prefix_def is_heartbeat_def is_local_def)
  have "touched_before pre" if "cycle_events en w = pre @ ScreenshotCall s tf # post"
    for pre s tf post
    using hb_ok_screenshot[of False pre s tf post] all that by (simp add: fresh_touched)
  moreover have "touched_after post" if "cycle_events en w = pre @ Telegram tok c r # post"
    for pre tok c r post
    using hb_ok_telegram[of False pre tok c r post] all that by simp
  ultimately show ?thesis
    using cyc by (simp add: cycle_prefix_def)
qed

theorem heartbeat_order_witness:
  "take 7 (cycle_events env_flaky world_example) =
     [Heartbeat ''2021-03-01T09:30:00.000Z'',
      SettingFindOne ''telegram:bot'',
      SettingFindOne ''tradingview:screenshot'', MessageFindAllPending,
      ConsoleLog (PendingMessages 1), ConsoleLog (ProcessingMessageID 1),
      ScreenshotCall ''NASDAQ:AAPL'' ''1D''] \<and>
   touched_before
     [Heartbeat ''2021-03-01T09:30:00.000Z'',
      SettingFindOne ''telegram:bot'',
      SettingFindOne ''tradingview:screenshot'', MessageFindAllPending,
      ConsoleLog (PendingMessages 1), ConsoleLog (ProcessingMessageID 1)] \<and>
   drop 20 (cycle_events env_flaky world_example) =
     [Telegram ''bot-token''
       (SendPhoto ''chan2'' (Some placeholder_image) ''NASDAQ:AAPL Buy now'')
       (Inl (ExternalError ''{code:403}'')),
      MessageUpdate 1 (Some Failed) ''{code:403}'',
      ConsoleLog (DispatchFAILED (ExternalError ''{code:403}'')),
      Heartbeat ''2021-03-01T09:30:00.000Z''] \<and>
   touched_after
     [MessageUpdate 1 (Some Failed) ''{code:403}'',
      ConsoleLog (DispatchFAILED (ExternalError ''{code:403}'')),
      Heartbeat ''2021-03-01T09:30:00.000Z'']"
proof -
  note t = heartbeat_order[of env_flaky world_example]
  from t have "\<And>pre s tf post.
      cycle_events env_flaky world_example = pre @ ScreenshotCall s tf # post \<Longrightarrow> touched_before pre"
    by blast
  from this[OF events_flaky] have a: "touched_before
     [Heartbeat ''2021-03-01T09:30:00.000Z'',
      SettingFindOne ''telegram:bot'',
      SettingFindOne ''tradingview:screenshot'', MessageFindAllPending,
      ConsoleLog (PendingMessages 1), ConsoleLog (ProcessingMessageID 1)]" .
  from t have "\<And>pre tok c r post.
      cycle_events env_flaky world_example = pre @ Telegram tok c r # post \<Longrightarrow> touched_after post"
    by blast
  from this[OF events_flaky[unfolded append_Cons[symmetric] append_assoc[symmetric]]]
  have b: "touched_after
     [MessageUpdate 1 (Some Failed) ''{code:403}'',
      ConsoleLog (DispatchFAILED (ExternalError ''{code:403}'')),
      Heartbeat ''2021-03-01T09:30:00.000Z'']" .
  from a b show ?thesis by (simp add: events_flaky)
qed

text \<open>
  Claim C9, as amended. When the credentials row exists, logging in never returns an
  error, whatever the page answers. With the flag off nothing is attempted: the only
  call is the read of the row. With the flag on the page is called and one line is
  printed, which is the failure when the sequence threw and else says whether the error
  dialog was shown. The start-up then goes on to the loop. When the row does not exist,
  line 205 reads the flag of \<open>null\<close> outside the \<^verbatim>\<open>try\<close>: the error leaves
  the login step after the read of the row, and the start-up ends with it.
\<close>

theorem login_raises_only_without_row:
  "(find (\<lambda>s. type_s s = ''tradingview:credentials'') (settings w) = Some c \<longrightarrow>
      fst (login en w) = Inr () \<and>
      (\<not> enabled_s c \<longrightarrow> snd (login en w) = emit (SettingFindOne ''tradingview:credentials'') w) \<and>
      (enabled_s c \<longrightarrow>
         (\<exists>pages l. trace (snd (login en w)) =
              trace w @ SettingFindOne ''tradingview:credentials'' # pages @ [ConsoleLog l] \<and>
            list_all is_page pages \<and>
            l = (case fst (login_sequence en c (emit (SettingFindOne ''tradingview:credentials'') w)) of
                   Inl err \<Rightarrow> LoginFAILED err
                 | Inr login_failed \<Rightarrow>
                     if login_failed then LoginINVALID (data_s c) else LoginSUCCESS (data_s c)))) \<and>
      fst (init en n w) = Inr ()) \<and>
   (find (\<lambda>s. type_s s = ''tradingview:credentials'') (settings w) = None \<longrightarrow>
      login en w = (Inl (null_read ''enabled''), emit (SettingFindOne ''tradingview:credentials'') w) \<and>
      fst (init en n w) = Inl (null_read ''enabled''))"
proof (intro conjI impI)
  assume none: "find (\<lambda>s. type_s s = ''tradingview:credentials'') (settings w) = None"
  then show "login en w =
      (Inl (null_read ''enabled''), emit (SettingFindOne ''tradingview:credentials'') w)"
    by (simp add: login_def Setting_findOne_def)
  let ?w2 = "emit (ConsoleLog BrowserSessionOpened)
               (updateWorkerStatus en True (emit (ConsoleLog WorkerStarted) w))"
  have "find (\<lambda>s. type_s s = ''tradingview:credentials'') (settings ?w2) = None"
    using none by (simp add: updateWorkerStatus_def Let_def find_append_None)
  then have "fst (login en ?w2) = Inl (null_read ''enabled'')"
    by (simp add: login_def Setting_findOne_def)
  then show "fst (init en n w) = Inl (null_read ''enabled'')"
    by (cases "login en ?w2") (auto simp: init_def Let_def)
next
  assume row: "find (\<lambda>s. type_s s = ''tradingview:credentials'') (settings w) = Some c"
  have login_ok: "fst (login en v) = Inr ()"
    if "find (\<lambda>s. type_s s = ''tradingview:credentials'') (settings v) = Some c" for v
    using that
    by (simp add: login_def Setting_findOne_def split: prod.splits sum.splits)
  let ?w1 = "emit (SettingFindOne ''tradingview:credentials'') w"
  show "fst (login en w) = Inr ()" by (rule login_ok[OF row])
  show "snd (login en w) = ?w1" if "\<not> enabled_s c"
    using that row by (simp add: login_def Setting_findOne_def)
  show "\<exists>pages l. trace (snd (login en w)) =
             trace w @ SettingFindOne ''tradingview:credentials'' # pages @ [ConsoleLog l] \<and>
           list_all is_page pages \<and>
           l = (case fst (login_sequence en c ?w1) of
                  Inl err \<Rightarrow> LoginFAILED err
                | Inr login_failed \<Rightarrow>
                    if login_failed then LoginINVALID (data_s c) else LoginSUCCESS (data_s c))"
    if en: "enabled_s c"
  proof -
    obtain r w2 where s: "login_sequence en c ?w1 = (r, w2)"
      by (cases "login_sequence en c ?w1")
    from login_sequence_trace[OF s] obtain pages where
      p: "trace w2 = trace ?w1 @ pages" "list_all is_page pages" by blast
    show ?thesis
      using s p en row
      by (cases r) (auto simp: login_def Setting_findOne_def)
  qed
  let ?w2 = "emit (ConsoleLog BrowserSessionOpened)
               (updateWorkerStatus en True (emit (ConsoleLog WorkerStarted) w))"
  have "find (\<lambda>s. type_s s = ''tradingview:credentials'') (settings ?w2) = Some c"
    using row by (simp add: updateWorkerStatus_def Let_def find_append_Some)
  from login_ok[OF this] show "fst (init en n w) = Inr ()"
    by (cases "login en ?w2") (auto simp: init_def Let_def)
qed

text \<open>The claim as stated fails: without the credentials row the login step and the
  start-up both end with the error.\<close>

theorem login_raises_only_without_row_counterexample:
  "find (\<lambda>s. type_s s = ''tradingview:credentials'') (settings world_no_credentials) = None \<and>
   fst (login env_ok world_no_credentials) = Inl (null_read ''enabled'') \<and>
   fst (init env_ok 1 world_no_credentials) = Inl (null_read ''enabled'')"
  by (simp add: world_no_credentials_def row_defs login_def init_def Setting_findOne_def
      updateWorkerStatus_def emit_def Let_def)

theorem login_raises_only_without_row_witness:
  "find (\<lambda>s. type_s s = ''tradingview:credentials'') (settings world_example) = Some row_credentials \<and>
   enabled_s row_credentials \<and>
   fst (login env_flaky world_example) = Inr () \<and>
   (\<exists>pages. trace (snd (login env_flaky world_example)) =
       SettingFindOne ''tradingview:credentials'' # pages @
       [ConsoleLog (LoginFAILED (ExternalError ''{name:TimeoutError}''))] \<and>
     list_all is_page pages) \<and>
   fst (init env_flaky 2 world_example) = Inr () \<and>
   find (\<lambda>s. type_s s = ''tradingview:credentials'') (settings world_guest) =
     Some row_credentials_off \<and>
   \<not> enabled_s row_credentials_off \<and>
   fst (login env_ok world_guest) = Inr () \<and>
   trace (snd (login env_ok world_guest)) = [SettingFindOne ''tradingview:credentials''] \<and>
   find (\<lambda>s. type_s s = ''tradingview:credentials'') (settings world_no_credentials) = None \<and>
   fst (login env_flaky world_no_credentials) = Inl (null_read ''enabled'') \<and>
   fst (init env_flaky 2 world_no_credentials) = Inl (null_read ''enabled'')"
proof -
  have h: "find (\<lambda>s. type_s s = ''tradingview:credentials'') (settings world_example) =
      Some row_credentials" "enabled_s row_credentials"
    by (simp_all add: row_defs)
  have g: "find (\<lambda>s. type_s s = ''tradingview:credentials'') (settings world_guest) =
      Some row_credentials_off" "\<not> enabled_s row_credentials_off"
       "trace world_guest = []"
    by (simp_all add: row_defs world_guest_def row_credentials_off_def)
  have n: "find (\<lambda>s. type_s s = ''tradingview:credentials'') (settings world_no_credentials) = None"
    by (simp add: row_defs world_no_credentials_def)
  from login_raises_only_without_row[of world_example row_credentials env_flaky 2] h have
    a: "fst (login env_flaky world_example) = Inr ()"
       "\<exists>pages. trace (snd (login env_flaky world_example)) =
          SettingFindOne ''tradingview:credentials'' # pages @
          [ConsoleLog (LoginFAILED (ExternalError ''{name:TimeoutError}''))] \<and>
        list_all is_page pages"
       "fst (init env_flaky 2 world_example) = Inr ()"
    by (auto simp: login_sequence_flaky)
  from login_raises_only_without_row[of world_guest row_credentials_off env_ok 0] g have
    b: "fst (login env_ok world_guest) = Inr ()"
       "trace (snd (login env_ok world_guest)) = [SettingFindOne ''tradingview:credentials'']"
    by simp_all
  from login_raises_only_without_row[of world_no_credentials _ env_flaky 2] n have
    c: "fst (login env_flaky world_no_credentials) = Inl (null_read ''enabled'')"
       "fst (init env_flaky 2 world_no_credentials) = Inl (null_read ''enabled'')"
    by simp_all
  from h g(1,2) n a b c show ?thesis by blast
qed

text \<open>
  Claim C10, as amended. When the \<open>telegram:bot\<close> row or the \<open>tradingview:screenshot\<close>
  row is missing, the cycle leaves every message row as it was, and it has written the
  heartbeat first. Without the bot row it stops before the loop over the messages;
  without the screenshot row it stops inside that loop, at the first channel of the
  first pending message, after printing the id of that message.
\<close>

theorem abort_leaves_messages_untouched:
  "find (\<lambda>s. type_s s = ''telegram:bot'') (settings w) = None \<or>
   find (\<lambda>s. type_s s = ''tradingview:screenshot'') (settings w) = None \<longrightarrow>
     messages (snd (processQueue en w)) = messages w \<and>
     settings (snd (processQueue en w)) =
       map (\<lambda>s. if type_s s = ''worker'' then s\<lparr>data_s := env_now en (trace w)\<rparr> else s)
         (settings w) \<and>
     hd (cycle_events en w) = Heartbeat (env_now en (trace w)) \<and>
     cycle_events en w =
       cycle_prefix en w @
       (if find (\<lambda>s. type_s s = ''telegram:bot'') (settings w) = None then []
        else map (\<lambda>m. ConsoleLog (ProcessingMessageID (id_m m))) (take 1 (pending_messages w)))"
proof (cases "find (\<lambda>s. type_s s = ''telegram:bot'') (settings w)")
  case None
  then show ?thesis
    by (simp add: processQueue_unfold cycle_events_def cycle_prefix_def updateWorkerStatus_settings)
next
  case (Some b)
  show ?thesis
  proof (cases "pending_messages w = []")
    case True
    with Some show ?thesis
      by (simp add: processQueue_unfold cycle_events_def cycle_prefix_def updateWorkerStatus_settings)
  next
    case False
    then have "take 1 (pending_messages w) = [hd (pending_messages w)]"
      by (cases "pending_messages w") simp_all
    with Some False show ?thesis
      by (simp add: processQueue_unfold cycle_events_def cycle_prefix_def updateWorkerStatus_settings
          processMessages_None)
  qed
qed

text \<open>The claim as stated fails in its account of where the cycle stops: without the
  screenshot row the last event is the line that prints the id of the first message,
  which is printed inside the loop.\<close>

theorem abort_leaves_messages_untouched_counterexample:
  "find (\<lambda>s. type_s s = ''tradingview:screenshot'') (settings world_no_screenshot) = None \<and>
   fst (processQueue env_ok world_no_screenshot) = Inl (null_read ''enabled'') \<and>
   cycle_events env_ok world_no_screenshot =
     [Heartbeat ''2021-03-01T09:30:00.000Z'',
      SettingFindOne ''telegram:bot'',
      SettingFindOne ''tradingview:screenshot'', MessageFindAllPending,
      ConsoleLog (PendingMessages 1), ConsoleLog (ProcessingMessageID 1)]"
  by (simp add: cycle_events_def eval_defs)

theorem abort_leaves_messages_untouched_witness:
  "find (\<lambda>s. type_s s = ''telegram:bot'') (settings world_no_bot) = None \<and>
   messages (snd (processQueue env_flaky world_no_bot)) = [msg_aapl] \<and>
   settings (snd (processQueue env_flaky world_no_bot)) =
     [row_worker\<lparr>data_s := ''2021-03-01T09:30:00.000Z''\<rparr>, row_screenshot, row_credentials] \<and>
   hd (cycle_events env_flaky world_no_bot) = Heartbeat ''2021-03-01T09:30:00.000Z'' \<and>
   cycle_events env_flaky world_no_bot =
     [Heartbeat ''2021-03-01T09:30:00.000Z'',
      SettingFindOne ''telegram:bot'',
      SettingFindOne ''tradingview:screenshot'', MessageFindAllPending,
      ConsoleLog (PendingMessages 1)] \<and>
   find (\<lambda>s. type_s s = ''tradingview:screenshot'') (settings world_no_screenshot) = None \<and>
   messages (snd (processQueue env_flaky world_no_screenshot)) = [msg_aapl] \<and>
   cycle_events env_flaky world_no_screenshot =
     [Heartbeat ''2021-03-01T09:30:00.000Z'',
      SettingFindOne ''telegram:bot'',
      SettingFindOne ''tradingview:screenshot'', MessageFindAllPending,
      ConsoleLog (PendingMessages 1), ConsoleLog (ProcessingMessageID 1)]"
proof -
  have nb: "find (\<lambda>s. type_s s = ''telegram:bot'') (settings world_no_bot) = None"
    by (simp add: row_defs)
  have ns: "find (\<lambda>s. type_s s = ''tradingview:screenshot'') (settings world_no_screenshot) = None"
    "find (\<lambda>s. type_s s = ''telegram:bot'') (settings world_no_screenshot) \<noteq> None"
    by (simp_all add: row_defs)
  have i: "messages world_no_bot = [msg_aapl]" "messages world_no_screenshot = [msg_aapl]"
    "settings world_no_bot = [row_worker, row_screenshot, row_credentials]"
    "pending_messages world_no_bot = [msg_aapl]" "pending_messages world_no_screenshot = [msg_aapl]"
    "id_m msg_aapl = 1" "env_now env_flaky [] = ''2021-03-01T09:30:00.000Z''"
    "type_s row_worker = ''worker''" "type_s row_screenshot \<noteq> ''worker''"
    "type_s row_credentials \<noteq> ''worker''"
    by (simp_all add: row_defs pending_messages_def env_flaky_def)
  from abort_leaves_messages_untouched[of world_no_bot env_flaky] nb have
    a: "messages (snd (processQueue env_flaky world_no_bot)) = [msg_aapl]"
       "settings (snd (processQueue env_flaky world_no_bot)) =
          [row_worker\<lparr>data_s := ''2021-03-01T09:30:00.000Z''\<rparr>, row_screenshot, row_credentials]"
       "hd (cycle_events env_flaky world_no_bot) = Heartbeat ''2021-03-01T09:30:00.000Z''"
       "cycle_events env_flaky world_no_bot =
         [Heartbeat ''2021-03-01T09:30:00.000Z'',
          SettingFindOne ''telegram:bot'',
          SettingFindOne ''tradingview:screenshot'', MessageFindAllPending,
          ConsoleLog (PendingMessages 1)]"
    by (simp_all add: i cycle_prefix_def)
  from abort_leaves_messages_untouched[of world_no_screenshot env_flaky] ns have
    b: "messages (snd (processQueue env_flaky world_no_screenshot)) = [msg_aapl]"
       "cycle_events env_flaky world_no_screenshot =
         [Heartbeat ''2021-03-01T09:30:00.000Z'',
          SettingFindOne ''telegram:bot'',
          SettingFindOne ''tradingview:screenshot'', MessageFindAllPending,
          ConsoleLog (PendingMessages 1), ConsoleLog (ProcessingMessageID 1)]"
    by (simp_all add: i cycle_prefix_def)
  from nb ns(1) a b show ?thesis by blast
qed

end
